theory Spec2Isabelle
  imports Complex_Main
begin

section \<open>JavaScript values\<close>

text \<open>
  The configuration objects handled by the compiler are loosely typed, so the model works
  on a universe of JavaScript values.  Numbers are IEEE doubles: the finite ones are
  embedded in the reals, and the three special values are constructors of their own.
  Strings are lists of characters whose codes are read as Latin-1 code points.  Nested
  plain objects are property lists in insertion order and are held by value; only the
  top-level configuration objects, whose identity the validator compares, live in a store
  (see below).  A regular expression is represented by its source text.
\<close>

datatype jsnum = NaN | PosInf | NegInf | Fin real

datatype jsval =
    JUndefined
  | JNull
  | JBool bool
  | JNum jsnum
  | JStr string
  | JRegExp string
  | JArr "jsval list"
  | JObj "(string \<times> jsval) list"

type_synonym jsobj = "(string \<times> jsval) list"

text \<open>
  \<open>TypeError\<close> is the exception of reading or writing a property on a value that cannot
  have one.  \<open>Unmodelled\<close> marks an input outside the value universe above (an array
  or regular expression that would have to carry named properties).
\<close>

datatype error = TypeError | Unmodelled

text \<open>Reading a property: an absent property reads as \<open>undefined\<close>.\<close>

fun get_prop :: "jsobj \<Rightarrow> string \<Rightarrow> jsval" where
  "get_prop [] k = JUndefined"
| "get_prop ((k', v) # ps) k = (if k' = k then v else get_prop ps k)"

text \<open>Writing a property: an existing key keeps its position, a new key goes last.\<close>

fun set_prop :: "jsobj \<Rightarrow> string \<Rightarrow> jsval \<Rightarrow> jsobj" where
  "set_prop [] k v = [(k, v)]"
| "set_prop ((k', v') # ps) k v =
     (if k' = k then (k, v) # ps else (k', v') # set_prop ps k v)"

text \<open>
  Object spread \<open>{...target, ...source}\<close> and \<open>Object.assign(target, source)\<close>: the
  properties of the source are written in order.  An object has each key once; a property
  list is read at the first entry of a key (\<open>get_prop\<close>), so later entries of a key
  already written are skipped.
\<close>

function spread_into :: "jsobj \<Rightarrow> jsobj \<Rightarrow> jsobj" where
  "spread_into target [] = target"
| "spread_into target ((k, v) # ps) =
     spread_into (set_prop target k v) (filter (\<lambda>p. fst p \<noteq> k) ps)"
  by pat_completeness auto
termination
  by (relation "measure (\<lambda>(target, ps). length ps)") (auto simp: less_Suc_eq_le)

declare spread_into.simps [simp del]

text \<open>Truthiness, as tested by \<open>if (v)\<close>, \<open>!v\<close>, \<open>a || b\<close>.\<close>

fun truthy :: "jsval \<Rightarrow> bool" where
  "truthy JUndefined = False"
| "truthy JNull = False"
| "truthy (JBool b) = b"
| "truthy (JNum n) = (n \<noteq> NaN \<and> n \<noteq> Fin 0)"
| "truthy (JStr s) = (s \<noteq> [])"
| "truthy (JRegExp _) = True"
| "truthy (JArr _) = True"
| "truthy (JObj _) = True"

text \<open>
  Modelled from the spec: the type predicates of the utility module are not part of the
  sources at hand; they are the \<open>typeof\<close> tests the spec calls "a genuine boolean",
  "numeric" and "a string value".
\<close>

fun isString :: "jsval \<Rightarrow> bool" where
  "isString (JStr _) = True"
| "isString _ = False"

fun isBoolean :: "jsval \<Rightarrow> bool" where
  "isBoolean (JBool _) = True"
| "isBoolean _ = False"

fun isNumber :: "jsval \<Rightarrow> bool" where
  "isNumber (JNum _) = True"
| "isNumber _ = False"

fun isArray :: "jsval \<Rightarrow> bool" where
  "isArray (JArr _) = True"
| "isArray _ = False"

fun isRegExp :: "jsval \<Rightarrow> bool" where
  "isRegExp (JRegExp _) = True"
| "isRegExp _ = False"

text \<open>\<open>a || b\<close> and \<open>a ?? b\<close> on values.\<close>

definition js_or :: "jsval \<Rightarrow> jsval \<Rightarrow> jsval" where
  "js_or a b = (if truthy a then a else b)"

definition nullish :: "jsval \<Rightarrow> bool" where
  "nullish v = (v = JUndefined \<or> v = JNull)"

definition js_coalesce :: "jsval \<Rightarrow> jsval \<Rightarrow> jsval" where
  "js_coalesce a b = (if nullish a then b else a)"

subsection \<open>String primitives\<close>

text \<open>
  \<open>toLowerCase\<close> on Latin-1: the capital letters \<open>A\<close>..\<open>Z\<close> (65..90) and
  \<open>U+00C0\<close>..\<open>U+00DE\<close> without the multiplication sign (192..222, not 215) move up by 32,
  which sets the bit of weight 32 (it is clear in both ranges).
\<close>

definition lower_char :: "char \<Rightarrow> char" where
  "lower_char c =
     (let n = (of_char c :: nat)
      in if (65 \<le> n \<and> n \<le> 90) \<or> (192 \<le> n \<and> n \<le> 222 \<and> n \<noteq> 215)
         then (case c of Char b0 b1 b2 b3 b4 b5 b6 b7 \<Rightarrow> Char b0 b1 b2 b3 b4 True b6 b7)
         else c)"

definition toLowerCase :: "string \<Rightarrow> string" where
  "toLowerCase s = map lower_char s"

text \<open>
  \<open>trim\<close> removes white space and line terminators at both ends; on Latin-1 these are
  the codes 9 to 13, the space 32 and the no-break space 160.
\<close>

definition is_space :: "char \<Rightarrow> bool" where
  "is_space c = ((of_char c :: nat) \<in> {9, 10, 11, 12, 13, 32, 160})"

definition trim :: "string \<Rightarrow> string" where
  "trim s = rev (dropWhile is_space (rev (dropWhile is_space s)))"

section \<open>Transpile options\<close>

subsection \<open>The option normalizer\<close>

text \<open>
  \<open>getTranspileConfigOpt(value, validValues, defaultValue)\<close>.  The allow-list is a
  \<open>Set\<close> of strings and possibly \<open>null\<close>; \<open>has\<close> is membership.
\<close>

definition getTranspileConfigOpt :: "jsval \<Rightarrow> jsval set \<Rightarrow> jsval \<Rightarrow> jsval" where
  "getTranspileConfigOpt v validValues defaultValue =
     (if v = JNull \<or> v = JStr ''null'' then JNull
      else
        let v' = (case v of JStr s \<Rightarrow> JStr (trim (toLowerCase s)) | _ \<Rightarrow> JNull)
        in if v' \<in> validValues then v' else defaultValue)"

definition VALID_EXPORT :: "jsval set" where
  "VALID_EXPORT = {JStr ''customelement'', JStr ''module''}"

definition VALID_METADATA :: "jsval set" where
  "VALID_METADATA = {JStr ''compilerstatic'', JNull}"

definition VALID_MODULE :: "jsval set" where
  "VALID_MODULE = {JStr ''cjs'', JStr ''esm''}"

definition VALID_PROXY :: "jsval set" where
  "VALID_PROXY = {JStr ''defineproperty'', JNull}"

definition VALID_STYLE :: "jsval set" where
  "VALID_STYLE = {JStr ''static''}"

definition VALID_STYLE_IMPORT_DATA :: "jsval set" where
  "VALID_STYLE_IMPORT_DATA = {JStr ''queryparams''}"

definition VALID_TARGET :: "jsval set" where
  "VALID_TARGET = {JStr ''latest'', JStr ''esnext'', JStr ''es2020'', JStr ''es2019'',
     JStr ''es2018'', JStr ''es2017'', JStr ''es2016'', JStr ''es2015'', JStr ''es5''}"

subsection \<open>Result scaffolding\<close>

text \<open>
  \<open>getTranspileResults\<close> writes to the object its caller passes, and a write can be
  refused: module code is strict, so an assignment raises \<open>TypeError\<close> when the
  property exists and is read-only, or does not exist on an object that is not
  extensible (\<open>Object.freeze\<close>, \<open>Object.seal\<close>, \<open>Object.preventExtensions\<close>).
  The caller's object is therefore its property list together with these attributes;
  the properties are data properties.
\<close>

record js_object =
  props :: jsobj
  extensible :: bool
  readonly :: "string list"

definition plain_object :: "jsobj \<Rightarrow> js_object" where
  "plain_object ps = \<lparr>props = ps, extensible = True, readonly = []\<rparr>"

text \<open>\<open>Object.freeze\<close> of a plain object with the given properties.\<close>

definition frozen_object :: "jsobj \<Rightarrow> js_object" where
  "frozen_object ps = \<lparr>props = ps, extensible = False, readonly = map fst ps\<rparr>"

definition accepts_write :: "js_object \<Rightarrow> string \<Rightarrow> bool" where
  "accepts_write obj k =
     (if k \<in> set (map fst (props obj)) then k \<notin> set (readonly obj) else extensible obj)"

text \<open>The assignment \<open>obj.k = v\<close> in strict code.\<close>

definition assign_prop :: "js_object \<Rightarrow> string \<Rightarrow> jsval \<Rightarrow> error + js_object" where
  "assign_prop obj k v =
     (if accepts_write obj k then Inr (obj\<lparr>props := set_prop (props obj) k v\<rparr>)
      else Inl TypeError)"

text \<open>
  Modelled from the spec: the import-path parser \<open>parseImportPath\<close> is an external
  collaborator whose code is not at hand.  The spec describes it as parsing a file path
  into structured import data plus an extension, so it is a parameter: a function from
  the path to the parsed-import object, of which \<open>getTranspileResults\<close> reads the
  properties \<open>ext\<close> and \<open>data\<close>, or to the exception it raises.
\<close>

type_synonym import_parser = "jsval \<Rightarrow> error + jsobj"

text \<open>
  \<open>getTranspileResults(code, input)\<close>.  The result is the caller's input object as the
  call leaves it, and either the exception raised or the returned object.  A refused
  assignment leaves the input as it was; an exception of the parser comes after the
  assignment.
\<close>

definition getTranspileResults ::
  "import_parser \<Rightarrow> jsval \<Rightarrow> js_object \<Rightarrow> js_object \<times> (error + jsobj)" where
  "getTranspileResults parseImportPath code input =
     (case (if \<not> isString (get_prop (props input) ''file'')
            then assign_prop input ''file'' (JStr ''module.tsx'') else Inr input) of
        Inl e \<Rightarrow> (input, Inl e)
      | Inr input' \<Rightarrow>
          (case parseImportPath (get_prop (props input') ''file'') of
             Inl e \<Rightarrow> (input', Inl e)
           | Inr parsedImport \<Rightarrow>
               (let results =
                      [(''code'', if isString code then code else JStr []),
                       (''data'', JArr []),
                       (''diagnostics'', JArr []),
                       (''inputFileExtension'', get_prop parsedImport ''ext''),
                       (''inputFilePath'', get_prop (props input') ''file''),
                       (''imports'', JArr []),
                       (''map'', JNull),
                       (''outputFilePath'', JNull)]
                in (input', Inr [(''importData'', get_prop parsedImport ''data''),
                                 (''results'', JObj results)]))))"

subsection \<open>The transpile configuration\<close>

text \<open>
  \<open>transpileCtx\<close> is the module-level memo of the system abstraction; it starts as
  \<open>{ sys: null }\<close>.
\<close>

record TranspileCtx =
  sys :: jsval

definition transpileCtx_init :: TranspileCtx where
  "transpileCtx_init = \<lparr>sys = JNull\<rparr>"

text \<open>
  What \<open>getTranspileConfig\<close> uses from outside this module: the default system built by
  \<open>createNodeSys()\<close>, the call \<open>sys.getCurrentDirectory()\<close> on a system value (a
  \<open>TypeError\<close> when the value has no such method), and the constant
  \<open>STENCIL_INTERNAL_CLIENT_ID\<close>.
\<close>

record transpile_env =
  createNodeSys :: jsval
  getCurrentDirectory :: "jsval \<Rightarrow> error + jsval"
  STENCIL_INTERNAL_CLIENT_ID :: jsval

text \<open>Decimal index keys, for spreading an array or a string.\<close>

fun dec :: "nat \<Rightarrow> string" where
  "dec n = (if n < 10 then [''0123456789'' ! n] else dec (n div 10) @ [''0123456789'' ! (n mod 10)])"

declare dec.simps [simp del]

text \<open>\<open>{...v}\<close>: the own enumerable properties of \<open>v\<close>; none for a primitive other than a string.\<close>

fun spread_value :: "jsval \<Rightarrow> jsobj" where
  "spread_value (JObj ps) = spread_into [] ps"
| "spread_value (JArr xs) = map (\<lambda>i. (dec i, xs ! i)) [0..<length xs]"
| "spread_value (JStr s) = map (\<lambda>i. (dec i, JStr [s ! i])) [0..<length s]"
| "spread_value _ = []"

text \<open>
  \<open>getTranspileConfig\<close> is given in the order of its source: the memo step, the compile
  options, the TypeScript compiler options, the optional \<open>baseUrl\<close> and \<open>paths\<close>, the
  transform options and the minimal build configuration.
\<close>

definition resolve_sys :: "transpile_env \<Rightarrow> jsobj \<Rightarrow> TranspileCtx \<Rightarrow> TranspileCtx" where
  "resolve_sys env input ctx =
     (if truthy (get_prop input ''sys'') then ctx\<lparr>sys := get_prop input ''sys''\<rparr>
      else if \<not> truthy (sys ctx) then ctx\<lparr>sys := createNodeSys env\<rparr>
      else ctx)"

definition resolve_currentDirectory :: "transpile_env \<Rightarrow> jsobj \<Rightarrow> TranspileCtx \<Rightarrow> error + jsval" where
  "resolve_currentDirectory env input ctx =
     (if isString (get_prop input ''currentDirectory'')
      then Inr (get_prop input ''currentDirectory'')
      else getCurrentDirectory env (sys ctx))"

definition compileOpts_initial :: "transpile_env \<Rightarrow> jsobj \<Rightarrow> jsval \<Rightarrow> jsobj" where
  "compileOpts_initial env input currentDirectory =
     [(''componentExport'',
         getTranspileConfigOpt (get_prop input ''componentExport'') VALID_EXPORT (JStr ''customelement'')),
      (''componentMetadata'',
         getTranspileConfigOpt (get_prop input ''componentMetadata'') VALID_METADATA JNull),
      (''coreImportPath'',
         if isString (get_prop input ''coreImportPath'')
         then get_prop input ''coreImportPath'' else STENCIL_INTERNAL_CLIENT_ID env),
      (''currentDirectory'', currentDirectory),
      (''file'', get_prop input ''file''),
      (''proxy'',
         getTranspileConfigOpt (get_prop input ''proxy'') VALID_PROXY (JStr ''defineproperty'')),
      (''module'',
         getTranspileConfigOpt (get_prop input ''module'') VALID_MODULE (JStr ''esm'')),
      (''sourceMap'',
         if get_prop input ''sourceMap'' = JStr ''inline'' then JStr ''inline''
         else JBool (get_prop input ''sourceMap'' \<noteq> JBool False)),
      (''style'',
         getTranspileConfigOpt (get_prop input ''style'') VALID_STYLE (JStr ''static'')),
      (''styleImportData'',
         getTranspileConfigOpt (get_prop input ''styleImportData'') VALID_STYLE_IMPORT_DATA
           (JStr ''queryparams'')),
      (''target'',
         getTranspileConfigOpt (get_prop input ''target'') VALID_TARGET (JStr ''latest''))]"

definition tsCompilerOptions_initial :: "jsobj \<Rightarrow> jsobj" where
  "tsCompilerOptions_initial compileOpts =
     [(''allowSyntheticDefaultImports'', JBool True),
      (''esModuleInterop'', JBool True),
      (''sourceMap'', JBool (get_prop compileOpts ''sourceMap'' \<noteq> JBool False)),
      (''isolatedModules'', JBool True),
      (''suppressOutputPathCheck'', JBool True),
      (''allowNonTsExtensions'', JBool True),
      (''noLib'', JBool True),
      (''noResolve'', JBool True)]"

text \<open>The two conditional blocks on \<open>baseUrl\<close> and \<open>paths\<close>, on the pair of option objects.\<close>

definition add_baseUrl :: "jsobj \<Rightarrow> jsobj \<times> jsobj \<Rightarrow> jsobj \<times> jsobj" where
  "add_baseUrl input opts =
     (case opts of (compileOpts, tsCompilerOptions) \<Rightarrow>
        if isString (get_prop input ''baseUrl'')
        then (let compileOpts' = set_prop compileOpts ''baseUrl'' (get_prop input ''baseUrl'')
              in (compileOpts', set_prop tsCompilerOptions ''baseUrl'' (get_prop compileOpts' ''baseUrl'')))
        else (compileOpts, tsCompilerOptions))"

definition add_paths :: "jsobj \<Rightarrow> jsobj \<times> jsobj \<Rightarrow> jsobj \<times> jsobj" where
  "add_paths input opts =
     (case opts of (compileOpts, tsCompilerOptions) \<Rightarrow>
        if truthy (get_prop input ''paths'')
        then (let compileOpts' =
                    set_prop compileOpts ''paths'' (JObj (spread_value (get_prop input ''paths'')))
              in (compileOpts',
                  set_prop tsCompilerOptions ''paths''
                    (JObj (spread_value (get_prop compileOpts' ''paths'')))))
        else (compileOpts, tsCompilerOptions))"

definition transformOpts_of :: "jsobj \<Rightarrow> jsobj" where
  "transformOpts_of compileOpts =
     [(''coreImportPath'', get_prop compileOpts ''coreImportPath''),
      (''componentExport'', get_prop compileOpts ''componentExport''),
      (''componentMetadata'', get_prop compileOpts ''componentMetadata''),
      (''currentDirectory'', get_prop compileOpts ''currentDirectory''),
      (''isolatedModules'', JBool True),
      (''module'', get_prop compileOpts ''module''),
      (''proxy'', get_prop compileOpts ''proxy''),
      (''file'', get_prop compileOpts ''file''),
      (''style'', get_prop compileOpts ''style''),
      (''styleImportData'', get_prop compileOpts ''styleImportData''),
      (''target'', get_prop compileOpts ''target'')]"

definition transpile_build_config :: "jsobj \<Rightarrow> TranspileCtx \<Rightarrow> jsobj \<Rightarrow> jsobj \<Rightarrow> jsobj" where
  "transpile_build_config input ctx compileOpts tsCompilerOptions =
     [(''_isTesting'', JBool True),
      (''devMode'', JBool True),
      (''enableCache'', JBool False),
      (''minifyCss'', JBool True),
      (''minifyJs'', JBool False),
      (''rootDir'', get_prop compileOpts ''currentDirectory''),
      (''srcDir'', get_prop compileOpts ''currentDirectory''),
      (''sys'', sys ctx),
      (''transformAliasedImportPaths'', get_prop input ''transformAliasedImportPaths''),
      (''tsCompilerOptions'', JObj tsCompilerOptions),
      (''validateTypes'', JBool False)]"

definition getTranspileConfig ::
  "transpile_env \<Rightarrow> jsobj \<Rightarrow> TranspileCtx \<Rightarrow> TranspileCtx \<times> (error + jsobj)" where
  "getTranspileConfig env input ctx =
     (let ctx' = resolve_sys env input ctx
      in case resolve_currentDirectory env input ctx' of
           Inl e \<Rightarrow> (ctx', Inl e)
         | Inr currentDirectory \<Rightarrow>
             (let compileOpts0 = compileOpts_initial env input currentDirectory;
                  opts = add_paths input
                           (add_baseUrl input (compileOpts0, tsCompilerOptions_initial compileOpts0));
                  compileOpts = fst opts;
                  tsCompilerOptions = snd opts
              in (ctx', Inr [(''compileOpts'', JObj compileOpts),
                             (''config'', JObj (transpile_build_config input ctx' compileOpts tsCompilerOptions)),
                             (''transformOpts'', JObj (transformOpts_of compileOpts))])))"

text \<open>A run of calls, threading the memo; the results are in call order.\<close>

fun getTranspileConfig_calls ::
  "transpile_env \<Rightarrow> jsobj list \<Rightarrow> TranspileCtx \<Rightarrow> TranspileCtx \<times> (error + jsobj) list" where
  "getTranspileConfig_calls env [] ctx = (ctx, [])"
| "getTranspileConfig_calls env (input # inputs) ctx =
     (let (ctx', r) = getTranspileConfig env input ctx;
          (ctx'', rs) = getTranspileConfig_calls env inputs ctx'
      in (ctx'', r # rs))"

text \<open>The system a returned transpile configuration carries in \<open>config.sys\<close>.\<close>

definition config_sys :: "jsobj \<Rightarrow> jsval" where
  "config_sys tc = (case get_prop tc ''config'' of JObj c \<Rightarrow> get_prop c ''sys'' | _ \<Rightarrow> JUndefined)"

section \<open>Full configuration validation\<close>

subsection \<open>Primitives\<close>

text \<open>
  \<open>v.k\<close> for a property name \<open>k\<close> that no built-in prototype defines: an exception
  on \<open>null\<close> and \<open>undefined\<close>, the property of a plain object, \<open>undefined\<close> on
  every other value.
\<close>

fun read_member :: "jsval \<Rightarrow> string \<Rightarrow> error + jsval" where
  "read_member JUndefined k = Inl TypeError"
| "read_member JNull k = Inl TypeError"
| "read_member (JObj ps) k = Inr (get_prop ps k)"
| "read_member _ k = Inr JUndefined"

text \<open>The relational operator \<open>a < b\<close> on numbers; every comparison with \<open>NaN\<close> is false.\<close>

fun num_lt :: "jsnum \<Rightarrow> jsnum \<Rightarrow> bool" where
  "num_lt (Fin a) (Fin b) = (a < b)"
| "num_lt NaN _ = False"
| "num_lt _ NaN = False"
| "num_lt NegInf b = (b \<noteq> NegInf)"
| "num_lt a PosInf = (a \<noteq> PosInf)"
| "num_lt _ _ = False"

text \<open>
  \<open>JSON.parse(JSON.stringify(v))\<close> on the value universe: \<open>undefined\<close> becomes
  \<open>null\<close> inside an array and drops the property inside an object, the non-finite
  numbers become \<open>null\<close>, a regular expression becomes an empty object.
\<close>

fun json_roundtrip :: "jsval \<Rightarrow> jsval"
  and json_roundtrip_props :: "(string \<times> jsval) list \<Rightarrow> (string \<times> jsval) list"
  and json_roundtrip_elems :: "jsval list \<Rightarrow> jsval list" where
  "json_roundtrip JUndefined = JNull"
| "json_roundtrip JNull = JNull"
| "json_roundtrip (JBool b) = JBool b"
| "json_roundtrip (JNum n) = (case n of Fin x \<Rightarrow> JNum (Fin x) | _ \<Rightarrow> JNull)"
| "json_roundtrip (JStr s) = JStr s"
| "json_roundtrip (JRegExp s) = JObj []"
| "json_roundtrip (JArr xs) = JArr (json_roundtrip_elems xs)"
| "json_roundtrip (JObj ps) = JObj (json_roundtrip_props ps)"
| "json_roundtrip_props [] = []"
| "json_roundtrip_props ((k, v) # ps) =
     (if v = JUndefined then json_roundtrip_props ps
      else (k, json_roundtrip v) # json_roundtrip_props ps)"
| "json_roundtrip_elems [] = []"
| "json_roundtrip_elems (v # vs) = json_roundtrip v # json_roundtrip_elems vs"

subsection \<open>Diagnostics\<close>

text \<open>
  Modelled from the spec: a diagnostic is a record of a problem with a severity and a
  message, and \<open>buildError(diagnostics)\<close> of the utility module appends an
  error-severity diagnostic to the list and returns it, for the caller to set its
  message.  \<open>buildError\<close> below is that diagnostic as created.
\<close>

record Diagnostic =
  level :: string
  messageText :: string

definition buildError :: Diagnostic where
  "buildError = \<lparr>level = ''error'', messageText = ''build error''\<rparr>"

definition DEFAULT_DEV_MODE :: bool where
  "DEFAULT_DEV_MODE = False"

definition DEFAULT_HASHED_FILENAME_LENTH :: nat where
  "DEFAULT_HASHED_FILENAME_LENTH = 8"

definition MIN_HASHED_FILENAME_LENTH :: nat where
  "MIN_HASHED_FILENAME_LENTH = 4"

definition MAX_HASHED_FILENAME_LENTH :: nat where
  "MAX_HASHED_FILENAME_LENTH = 32"

subsection \<open>External collaborators\<close>

text \<open>
  Modelled from the spec: the field-specific validators, the logger and system factories
  and the boolean default setter are imported from modules that are not at hand.  The
  spec treats each validator as an opaque function called through a narrow contract,
  which may change the configuration in progress and the diagnostics, so they are
  parameters.  A validator called with the configuration and the diagnostics list
  returns both as it leaves them; \<open>validateDevServer\<close> returns the dev-server
  options as well.  \<open>createNodeSys_logger\<close> is \<open>createNodeSys({ logger })\<close> of the
  node system module (the name \<open>createNodeSys\<close> is taken by the transpile
  environment).
\<close>

record validators =
  createNodeLogger :: jsval
  createNodeSys_logger :: "jsval \<Rightarrow> jsval"
  validateHydrated :: "jsobj \<Rightarrow> jsval"
  validateRollupConfig :: "jsobj \<Rightarrow> jsval"
  validatePaths :: "jsobj \<Rightarrow> jsobj"
  validateNamespace :: "jsobj \<Rightarrow> Diagnostic list \<Rightarrow> jsobj \<times> Diagnostic list"
  validateOutputTargets :: "jsobj \<Rightarrow> Diagnostic list \<Rightarrow> jsobj \<times> Diagnostic list"
  validatePlugins :: "jsobj \<Rightarrow> Diagnostic list \<Rightarrow> jsobj \<times> Diagnostic list"
  validateDevServer :: "jsobj \<Rightarrow> Diagnostic list \<Rightarrow> jsval \<times> jsobj \<times> Diagnostic list"
  validateTesting :: "jsobj \<Rightarrow> Diagnostic list \<Rightarrow> jsobj \<times> Diagnostic list"
  validateWorkers :: "jsobj \<Rightarrow> jsobj"
  validateDistNamespace :: "jsobj \<Rightarrow> Diagnostic list \<Rightarrow> jsobj \<times> Diagnostic list"

text \<open>
  Modelled from the spec: \<open>setBooleanConfig(config, configName, flagName, defaultValue)\<close>
  of the configuration utilities.  If the field already holds a genuine boolean it is
  left; else if a flag of the given name is present and boolean on the flags sub-object
  it is used; else the default is applied.  Exactly one field is written.
\<close>

definition setBooleanConfig :: "jsobj \<Rightarrow> string \<Rightarrow> string option \<Rightarrow> jsval \<Rightarrow> jsobj" where
  "setBooleanConfig config configName flagName defaultValue =
     (if isBoolean (get_prop config configName) then config
      else
        let flagValue =
              (case flagName of
                 None \<Rightarrow> JUndefined
               | Some f \<Rightarrow> (case get_prop config ''flags'' of JObj fs \<Rightarrow> get_prop fs f | _ \<Rightarrow> JUndefined))
        in if isBoolean flagValue then set_prop config configName flagValue
           else set_prop config configName defaultValue)"

text \<open>
  Modelled from the spec: \<open>sortBy\<close> of the utility module sorts ascending by the key and
  keeps the relative order of equal keys.  The key of a bundle is
  \<open>a.components.length\<close>, which the source passes as a function: reading it raises
  when the bundle or its \<open>components\<close> is \<open>null\<close> or \<open>undefined\<close>, and is a length
  for an array or a string.  A key that is not a length is outside the model.
\<close>

definition bundle_key :: "jsval \<Rightarrow> error + nat" where
  "bundle_key a =
     (case read_member a ''components'' of
        Inl e \<Rightarrow> Inl e
      | Inr JUndefined \<Rightarrow> Inl TypeError
      | Inr JNull \<Rightarrow> Inl TypeError
      | Inr (JArr xs) \<Rightarrow> Inr (length xs)
      | Inr (JStr s) \<Rightarrow> Inr (length s)
      | Inr _ \<Rightarrow> Inl Unmodelled)"

fun bundle_keys :: "jsval list \<Rightarrow> error + (nat \<times> jsval) list" where
  "bundle_keys [] = Inr []"
| "bundle_keys (a # as) =
     (case bundle_key a of
        Inl e \<Rightarrow> Inl e
      | Inr n \<Rightarrow> (case bundle_keys as of Inl e \<Rightarrow> Inl e | Inr kas \<Rightarrow> Inr ((n, a) # kas)))"

definition sortBy :: "jsval list \<Rightarrow> error + jsval list" where
  "sortBy bundles =
     (case bundle_keys bundles of Inl e \<Rightarrow> Inl e | Inr kas \<Rightarrow> Inr (map snd (sort_key fst kas)))"

subsection \<open>The stages of \<open>validateConfig\<close>\<close>

text \<open>
  The body of \<open>validateConfig\<close> after the cache test is a sequence of assignments to
  the fresh object \<open>validatedConfig\<close>.  No other variable holds that object before the
  function returns, so its state is passed from stage to stage as a value; the stages
  are given in source order.

  The object literal: \<open>devServer\<close> first, the copy \<open>config\<close> of the user's object
  spread over it, the listed properties, and the result of \<open>validatePaths\<close> spread
  last.
\<close>

definition assemble :: "validators \<Rightarrow> jsobj \<Rightarrow> jsobj \<Rightarrow> jsobj" where
  "assemble E userConfig bootstrapConfig =
     (let config = spread_into [] userConfig;
          logger = js_or (get_prop bootstrapConfig ''logger'')
                     (js_or (get_prop config ''logger'') (createNodeLogger E))
      in spread_into
           (spread_into
              (spread_into [(''devServer'', JObj [])] config)
              [(''flags'', json_roundtrip (js_or (get_prop config ''flags'') (JObj []))),
               (''hydratedFlag'', validateHydrated E config),
               (''logger'', logger),
               (''outputTargets'', js_coalesce (get_prop config ''outputTargets'') (JArr [])),
               (''rollupConfig'', validateRollupConfig E config),
               (''sys'',
                  js_coalesce (get_prop config ''sys'')
                    (js_coalesce (get_prop bootstrapConfig ''sys'')
                       (createNodeSys_logger E (JObj [(''logger'', logger)])))),
               (''testing'', js_coalesce (get_prop config ''testing'') (JObj [])),
               (''transformAliasedImportPaths'',
                  if isBoolean (get_prop userConfig ''transformAliasedImportPaths'')
                  then get_prop userConfig ''transformAliasedImportPaths'' else JBool True),
               (''validatePrimaryPackageOutputTarget'',
                  js_coalesce (get_prop userConfig ''validatePrimaryPackageOutputTarget'') (JBool False))])
           (validatePaths E config))"

text \<open>Lines 97 to 104: \<open>devMode\<close>.\<close>

definition resolve_devMode :: "jsobj \<Rightarrow> error + jsobj" where
  "resolve_devMode validatedConfig =
     (case read_member (get_prop validatedConfig ''flags'') ''prod'' of
        Inl e \<Rightarrow> Inl e
      | Inr flag_prod \<Rightarrow>
          if truthy flag_prod then Inr (set_prop validatedConfig ''devMode'' (JBool False))
          else
            (case read_member (get_prop validatedConfig ''flags'') ''dev'' of
               Inl e \<Rightarrow> Inl e
             | Inr flag_dev \<Rightarrow>
                 if truthy flag_dev then Inr (set_prop validatedConfig ''devMode'' (JBool True))
                 else if \<not> isBoolean (get_prop validatedConfig ''devMode'')
                 then Inr (set_prop validatedConfig ''devMode'' (JBool DEFAULT_DEV_MODE))
                 else Inr validatedConfig))"

text \<open>
  Lines 106 to 125: \<open>extras\<close>.  The flags are assigned on the extras object; on a
  truthy primitive the first assignment raises (module code is strict).
\<close>

definition coerce_flag :: "jsobj \<Rightarrow> string \<Rightarrow> jsobj" where
  "coerce_flag extras k = set_prop extras k (JBool (truthy (get_prop extras k)))"

definition normalize_extras_object :: "jsobj \<Rightarrow> jsobj" where
  "normalize_extras_object extras =
     (let extras' =
            foldl coerce_flag extras
              [''appendChildSlotFix'', ''cloneNodeFix'', ''lifecycleDOMEvents'', ''scriptDataOpts'',
               ''slotChildNodesFix'', ''initializeNextTick'', ''tagNameTransform'',
               ''experimentalSlotFixes'']
      in if truthy (get_prop extras' ''experimentalSlotFixes'')
         then foldl (\<lambda>e k. set_prop e k (JBool True)) extras'
                [''appendChildSlotFix'', ''cloneNodeFix'', ''slotChildNodesFix'',
                 ''scopedSlotTextContentFix'']
         else extras')"

definition normalize_extras :: "jsobj \<Rightarrow> error + jsobj" where
  "normalize_extras validatedConfig =
     (case js_or (get_prop validatedConfig ''extras'') (JObj []) of
        JObj extras \<Rightarrow> Inr (set_prop validatedConfig ''extras'' (JObj (normalize_extras_object extras)))
      | JArr _ \<Rightarrow> Inl Unmodelled
      | JRegExp _ \<Rightarrow> Inl Unmodelled
      | _ \<Rightarrow> Inl TypeError)"

text \<open>
  Lines 127 to 155: \<open>buildEs5\<close>, the boolean fields, \<open>taskQueue\<close> and
  \<open>hashFileNames\<close>.  Each step reads the configuration as the steps before it left
  it.
\<close>

definition resolve_buildEs5 :: "jsobj \<Rightarrow> jsobj" where
  "resolve_buildEs5 c =
     set_prop c ''buildEs5''
       (JBool (get_prop c ''buildEs5'' = JBool True \<or>
               (\<not> truthy (get_prop c ''devMode'') \<and> get_prop c ''buildEs5'' = JStr ''prod'')))"

definition boolean_step :: "string \<Rightarrow> string option \<Rightarrow> (jsobj \<Rightarrow> jsval) \<Rightarrow> jsobj \<Rightarrow> jsobj" where
  "boolean_step configName flagName defaultValue c =
     setBooleanConfig c configName flagName (defaultValue c)"

definition not_devMode :: "jsobj \<Rightarrow> jsval" where
  "not_devMode c = JBool (\<not> truthy (get_prop c ''devMode''))"

definition default_taskQueue :: "jsobj \<Rightarrow> jsobj" where
  "default_taskQueue c =
     (if \<not> isString (get_prop c ''taskQueue'') then set_prop c ''taskQueue'' (JStr ''async'') else c)"

definition default_hashFileNames :: "jsobj \<Rightarrow> jsobj" where
  "default_hashFileNames c =
     (if \<not> isBoolean (get_prop c ''hashFileNames'')
      then set_prop c ''hashFileNames'' (not_devMode c) else c)"

definition resolve_booleans :: "jsobj \<Rightarrow> jsobj" where
  "resolve_booleans c =
     foldl (\<lambda>c step. step c) c
       [resolve_buildEs5,
        boolean_step ''minifyCss'' None not_devMode,
        boolean_step ''minifyJs'' None not_devMode,
        boolean_step ''sourceMap'' None
          (\<lambda>c. if get_prop c ''sourceMap'' = JUndefined then JBool True else get_prop c ''sourceMap''),
        boolean_step ''watch'' (Some ''watch'') (\<lambda>c. JBool False),
        boolean_step ''buildDocs'' (Some ''docs'') not_devMode,
        boolean_step ''buildDist'' (Some ''esm'') (\<lambda>c. js_or (not_devMode c) (get_prop c ''buildEs5'')),
        boolean_step ''profile'' (Some ''profile'') (\<lambda>c. get_prop c ''devMode''),
        boolean_step ''writeLog'' (Some ''log'') (\<lambda>c. JBool False),
        boolean_step ''buildAppCore'' None (\<lambda>c. JBool True),
        boolean_step ''autoprefixCss'' None (\<lambda>c. get_prop c ''buildEs5''),
        boolean_step ''validateTypes'' None (\<lambda>c. JBool (\<not> truthy (get_prop c ''_isTesting''))),
        boolean_step ''allowInlineScripts'' None (\<lambda>c. JBool True),
        default_taskQueue,
        default_hashFileNames]"

text \<open>
  Lines 156 to 166: \<open>hashedFileNameLength\<close>.  A value that is not a number is replaced
  by the default; then each bound is tested on its own and a violation appends an error
  whose message is set; the value is not changed by the tests.
\<close>

definition default_hashedFileNameLength :: "jsobj \<Rightarrow> jsobj" where
  "default_hashedFileNameLength c =
     (if \<not> isNumber (get_prop c ''hashedFileNameLength'')
      then set_prop c ''hashedFileNameLength'' (JNum (Fin (real DEFAULT_HASHED_FILENAME_LENTH)))
      else c)"

text \<open>\<open>a < b\<close> where \<open>b\<close> is a number and \<open>a\<close> is known to be one (after \<open>isNumber\<close>).\<close>

fun js_lt :: "jsval \<Rightarrow> jsval \<Rightarrow> bool" where
  "js_lt (JNum a) (JNum b) = num_lt a b"
| "js_lt _ _ = False"

definition too_short :: Diagnostic where
  "too_short =
     buildError\<lparr>messageText :=
       ''validatedConfig.hashedFileNameLength must be at least '' @ dec MIN_HASHED_FILENAME_LENTH
         @ '' characters''\<rparr>"

definition too_long :: Diagnostic where
  "too_long =
     buildError\<lparr>messageText :=
       ''validatedConfig.hashedFileNameLength cannot be more than '' @ dec MAX_HASHED_FILENAME_LENTH
         @ '' characters''\<rparr>"

definition check_hashedFileNameLength :: "jsobj \<Rightarrow> Diagnostic list \<Rightarrow> Diagnostic list" where
  "check_hashedFileNameLength c diagnostics =
     (let diagnostics' =
            (if js_lt (get_prop c ''hashedFileNameLength'') (JNum (Fin (real MIN_HASHED_FILENAME_LENTH)))
             then diagnostics @ [too_short] else diagnostics)
      in if js_lt (JNum (Fin (real MAX_HASHED_FILENAME_LENTH))) (get_prop c ''hashedFileNameLength'')
         then diagnostics' @ [too_long] else diagnostics')"

text \<open>Lines 167 to 169: \<open>env\<close>.\<close>

definition default_env :: "jsobj \<Rightarrow> jsobj" where
  "default_env c = (if \<not> truthy (get_prop c ''env'') then set_prop c ''env'' (JObj []) else c)"

text \<open>Lines 172 to 184: namespace, output targets, plugins, dev server, testing.\<close>

definition delegate_validators ::
  "validators \<Rightarrow> jsobj \<times> Diagnostic list \<Rightarrow> jsobj \<times> Diagnostic list" where
  "delegate_validators E s =
     (let (c1, d1) = validateNamespace E (fst s) (snd s);
          (c2, d2) = validateOutputTargets E c1 d1;
          (c3, d3) = validatePlugins E c2 d2;
          (devServer, c4, d4) = validateDevServer E c3 d3;
          c5 = set_prop c4 ''devServer'' devServer
      in validateTesting E c5 d4)"

text \<open>Lines 186 to 191: \<open>bundles\<close>.\<close>

definition sort_bundles :: "jsobj \<Rightarrow> error + jsobj" where
  "sort_bundles c =
     (case get_prop c ''bundles'' of
        JArr bundles \<Rightarrow>
          (case sortBy bundles of
             Inl e \<Rightarrow> Inl e
           | Inr bundles' \<Rightarrow> Inr (set_prop c ''bundles'' (JArr bundles')))
      | _ \<Rightarrow> Inr (set_prop c ''bundles'' (JArr [])))"

text \<open>Lines 193 to 203: workers, \<open>devInspector\<close>, the distribution namespace, \<open>enableCache\<close>.\<close>

definition finish_validators ::
  "validators \<Rightarrow> jsobj \<times> Diagnostic list \<Rightarrow> jsobj \<times> Diagnostic list" where
  "finish_validators E s =
     (let c1 = validateWorkers E (fst s);
          c2 = boolean_step ''devInspector'' None (\<lambda>c. get_prop c ''devMode'') c1;
          (c3, d3) = (if \<not> truthy (get_prop c2 ''_isTesting'')
                      then validateDistNamespace E c2 (snd s) else (c2, snd s))
      in (boolean_step ''enableCache'' (Some ''cache'') (\<lambda>c. JBool True) c3, d3))"

text \<open>
  Lines 205 to 213: \<open>watchIgnoredRegex\<close>.  A value that is neither an array nor
  \<open>null\<close>/\<open>undefined\<close> is wrapped; the \<open>reduce\<close> keeps the elements that are
  instances of \<open>RegExp\<close>.
\<close>

definition normalize_watchIgnoredRegex :: "jsobj \<Rightarrow> jsobj" where
  "normalize_watchIgnoredRegex c =
     (let c' = (if \<not> isArray (get_prop c ''watchIgnoredRegex'') \<and> \<not> nullish (get_prop c ''watchIgnoredRegex'')
                then set_prop c ''watchIgnoredRegex'' (JArr [get_prop c ''watchIgnoredRegex''])
                else c)
      in set_prop c' ''watchIgnoredRegex''
           (JArr (case js_or (get_prop c' ''watchIgnoredRegex'') (JArr []) of
                    JArr regs \<Rightarrow> filter isRegExp regs
                  | _ \<Rightarrow> [])))"

text \<open>The whole body after the cache test, up to the assignment of the cache.\<close>

definition validate_fresh ::
  "validators \<Rightarrow> jsobj \<Rightarrow> jsobj \<Rightarrow> error + jsobj \<times> Diagnostic list" where
  "validate_fresh E userConfig bootstrapConfig =
     (case resolve_devMode (assemble E userConfig bootstrapConfig) of
        Inl e \<Rightarrow> Inl e
      | Inr c1 \<Rightarrow>
          (case normalize_extras c1 of
             Inl e \<Rightarrow> Inl e
           | Inr c2 \<Rightarrow>
               (let c3 = default_hashedFileNameLength (resolve_booleans c2);
                    d3 = check_hashedFileNameLength c3 [];
                    (c4, d4) = delegate_validators E (default_env c3, d3)
                in case sort_bundles c4 of
                     Inl e \<Rightarrow> Inl e
                   | Inr c5 \<Rightarrow>
                       (let (c6, d6) = finish_validators E (c5, d4)
                        in Inr (normalize_watchIgnoredRegex c6, d6)))))"

subsection \<open>The identity cache\<close>

text \<open>
  The configuration objects whose identity matters are in a store, addressed by their
  index; a new object takes the next index.  \<open>CACHED_VALIDATED_CONFIG\<close> is the
  module-level variable: \<open>null\<close> (\<open>None\<close>) or a reference to an object.
\<close>

type_synonym ref = nat

record world =
  store :: "jsobj list"
  CACHED_VALIDATED_CONFIG :: "ref option"

text \<open>
  \<open>validateConfig(userConfig, bootstrapConfig)\<close>.  The first argument is a reference, or
  \<open>None\<close> for an omitted argument, for which the parameter default \<open>{}\<close> is a new
  object and not the cached one.  The result is the world as the call leaves it and
  either the exception or the pair of the returned object's reference and the
  diagnostics.  An exception leaves the cache as it was.
\<close>

definition validateConfig ::
  "validators \<Rightarrow> ref option \<Rightarrow> jsobj \<Rightarrow> world \<Rightarrow> world \<times> (error + ref \<times> Diagnostic list)" where
  "validateConfig E userConfig bootstrapConfig w =
     (case userConfig of
        Some u \<Rightarrow>
          if CACHED_VALIDATED_CONFIG w \<noteq> None \<and> CACHED_VALIDATED_CONFIG w = Some u
          then (w, Inr (u, []))
          else
            (case validate_fresh E (store w ! u) bootstrapConfig of
               Inl e \<Rightarrow> (w, Inl e)
             | Inr (validatedConfig, diagnostics) \<Rightarrow>
                 (w\<lparr>store := store w @ [validatedConfig],
                    CACHED_VALIDATED_CONFIG := Some (length (store w))\<rparr>,
                  Inr (length (store w), diagnostics)))
      | None \<Rightarrow>
          (case validate_fresh E [] bootstrapConfig of
             Inl e \<Rightarrow> (w, Inl e)
           | Inr (validatedConfig, diagnostics) \<Rightarrow>
               (w\<lparr>store := store w @ [validatedConfig],
                  CACHED_VALIDATED_CONFIG := Some (length (store w))\<rparr>,
                Inr (length (store w), diagnostics))))"

subsection \<open>Contracts of the collaborators and of the input\<close>

text \<open>
  The spec gives the delegated validators narrow contracts: each may append diagnostics
  and change its own part of the configuration.  \<open>keeps E k\<close> says that none of them
  changes the field \<open>k\<close> and that the path validator computes no field \<open>k\<close>;
  \<open>appends E\<close> that each of them only appends to the diagnostics; \<open>silent E\<close> that
  none of them reports anything.
\<close>

definition keeps :: "validators \<Rightarrow> string \<Rightarrow> bool" where
  "keeps E k \<longleftrightarrow>
     (\<forall>c d. get_prop (fst (validateNamespace E c d)) k = get_prop c k) \<and>
     (\<forall>c d. get_prop (fst (validateOutputTargets E c d)) k = get_prop c k) \<and>
     (\<forall>c d. get_prop (fst (validatePlugins E c d)) k = get_prop c k) \<and>
     (\<forall>c d. get_prop (fst (snd (validateDevServer E c d))) k = get_prop c k) \<and>
     (\<forall>c d. get_prop (fst (validateTesting E c d)) k = get_prop c k) \<and>
     (\<forall>c. get_prop (validateWorkers E c) k = get_prop c k) \<and>
     (\<forall>c d. get_prop (fst (validateDistNamespace E c d)) k = get_prop c k) \<and>
     (\<forall>c. k \<notin> fst ` set (validatePaths E c))"

definition appends :: "validators \<Rightarrow> bool" where
  "appends E \<longleftrightarrow>
     (\<forall>c d. \<exists>d'. snd (validateNamespace E c d) = d @ d') \<and>
     (\<forall>c d. \<exists>d'. snd (validateOutputTargets E c d) = d @ d') \<and>
     (\<forall>c d. \<exists>d'. snd (validatePlugins E c d) = d @ d') \<and>
     (\<forall>c d. \<exists>d'. snd (snd (validateDevServer E c d)) = d @ d') \<and>
     (\<forall>c d. \<exists>d'. snd (validateTesting E c d) = d @ d') \<and>
     (\<forall>c d. \<exists>d'. snd (validateDistNamespace E c d) = d @ d')"

definition silent :: "validators \<Rightarrow> bool" where
  "silent E \<longleftrightarrow>
     (\<forall>c d. snd (validateNamespace E c d) = d) \<and>
     (\<forall>c d. snd (validateOutputTargets E c d) = d) \<and>
     (\<forall>c d. snd (validatePlugins E c d) = d) \<and>
     (\<forall>c d. snd (snd (validateDevServer E c d)) = d) \<and>
     (\<forall>c d. snd (validateTesting E c d) = d) \<and>
     (\<forall>c d. snd (validateDistNamespace E c d) = d)"

text \<open>The fields that \<open>validateConfig\<close> resolves in its own body and the claims are about.\<close>

definition core_fields :: "string list" where
  "core_fields =
     [''flags'', ''devMode'', ''extras'', ''hashedFileNameLength'', ''bundles'', ''watchIgnoredRegex'']"

definition respects_core :: "validators \<Rightarrow> bool" where
  "respects_core E \<longleftrightarrow> list_all (keeps E) core_fields"

text \<open>
  A configuration as its type describes it, as far as the body of \<open>validateConfig\<close>
  depends on it: \<open>flags\<close> and \<open>extras\<close> are absent or plain objects, and \<open>bundles\<close>,
  when an array, holds objects whose \<open>components\<close> is an array.
\<close>

fun optional_object :: "jsval \<Rightarrow> bool" where
  "optional_object JUndefined = True"
| "optional_object (JObj _) = True"
| "optional_object _ = False"

fun typed_bundle :: "jsval \<Rightarrow> bool" where
  "typed_bundle (JObj ps) = isArray (get_prop ps ''components'')"
| "typed_bundle _ = False"

fun typed_bundles :: "jsval \<Rightarrow> bool" where
  "typed_bundles (JArr bs) = list_all typed_bundle bs"
| "typed_bundles _ = True"

definition typed_config :: "jsobj \<Rightarrow> bool" where
  "typed_config c \<longleftrightarrow>
     optional_object (get_prop c ''flags'') \<and>
     optional_object (get_prop c ''extras'') \<and>
     typed_bundles (get_prop c ''bundles'')"

text \<open>The value of a command-line flag as \<open>validateConfig\<close> tests it: on the copy of
  \<open>flags\<close> made through JSON.\<close>

definition flag_set :: "jsobj \<Rightarrow> string \<Rightarrow> bool" where
  "flag_set userConfig k =
     (case read_member (json_roundtrip (js_or (get_prop userConfig ''flags'') (JObj []))) k of
        Inl e \<Rightarrow> False
      | Inr v \<Rightarrow> truthy v)"

section \<open>Sample inputs\<close>

text \<open>Concrete collaborators and inputs at which the theorems below are instantiated.\<close>

definition sample_env :: transpile_env where
  "sample_env =
     \<lparr>createNodeSys = JObj [(''name'', JStr ''node'')],
      getCurrentDirectory =
        (\<lambda>s. case s of JObj ps \<Rightarrow> Inr (get_prop ps ''cwd'') | _ \<Rightarrow> Inl TypeError),
      STENCIL_INTERNAL_CLIENT_ID = JStr ''@stencil/core/internal/client''\<rparr>"

definition sample_sys :: jsval where
  "sample_sys = JObj [(''name'', JStr ''in-memory''), (''cwd'', JStr ''/work'')]"

text \<open>
  A path parser that never raises: the extension is what follows the last dot of the
  path, and there is no import data.
\<close>

definition sample_parser :: import_parser where
  "sample_parser p =
     (case p of
        JStr s \<Rightarrow> Inr [(''ext'', JStr (rev (takeWhile (\<lambda>c. c \<noteq> CHR ''.'') (rev s)))), (''data'', JNull)]
      | _ \<Rightarrow> Inr [(''ext'', JNull), (''data'', JNull)])"

text \<open>Validators that check nothing: no field is changed and no diagnostic is added.\<close>

definition plain_validators :: validators where
  "plain_validators =
     \<lparr>createNodeLogger = JObj [(''name'', JStr ''logger'')],
      createNodeSys_logger = (\<lambda>opts. JObj [(''name'', JStr ''node'')]),
      validateHydrated = (\<lambda>c. JNull),
      validateRollupConfig = (\<lambda>c. JObj []),
      validatePaths = (\<lambda>c. [(''rootDir'', JStr ''/'')]),
      validateNamespace = (\<lambda>c d. (c, d)),
      validateOutputTargets = (\<lambda>c d. (c, d)),
      validatePlugins = (\<lambda>c d. (c, d)),
      validateDevServer = (\<lambda>c d. (get_prop c ''devServer'', c, d)),
      validateTesting = (\<lambda>c d. (c, d)),
      validateWorkers = (\<lambda>c. c),
      validateDistNamespace = (\<lambda>c d. (c, d))\<rparr>"

text \<open>A world with one user configuration, at reference 0, and an empty cache.\<close>

definition world_of :: "jsobj \<Rightarrow> world" where
  "world_of userConfig = \<lparr>store = [userConfig], CACHED_VALIDATED_CONFIG = None\<rparr>"

text \<open>
  Validators of which the namespace validator does something: it fills in the
  \<open>namespace\<close> field and reports a warning.
\<close>

definition naming_validators :: validators where
  "naming_validators =
     plain_validators
       \<lparr>validateNamespace :=
          (\<lambda>c d. (set_prop c ''namespace'' (JStr ''App''),
                   d @ [\<lparr>level = ''warn'', messageText = ''namespace defaulted to App''\<rparr>]))\<rparr>"

section \<open>Properties of the transpile options\<close>

lemma get_prop_set_prop:
  "get_prop (set_prop ps k v) k' = (if k' = k then v else get_prop ps k')"
  by (induction ps k v rule: set_prop.induct) auto

subsection \<open>The option normalizer\<close>

text \<open>
  What the normalizer returns on an input other than \<open>null\<close> and \<open>"null"\<close>: a string is
  lowercased and trimmed and kept when it is in the allow-list; every other value is
  replaced by \<open>null\<close> before the membership test, so it yields the default only when the
  allow-list does not contain \<open>null\<close>.
\<close>

lemma getTranspileConfigOpt_string:
  "s \<noteq> ''null'' \<Longrightarrow>
   getTranspileConfigOpt (JStr s) validValues defaultValue =
     (if JStr (trim (toLowerCase s)) \<in> validValues then JStr (trim (toLowerCase s)) else defaultValue)"
  by (simp add: getTranspileConfigOpt_def)

lemma getTranspileConfigOpt_non_string:
  "v \<noteq> JNull \<Longrightarrow> \<not> isString v \<Longrightarrow>
   getTranspileConfigOpt v validValues defaultValue =
     (if JNull \<in> validValues then JNull else defaultValue)"
  by (cases v) (simp_all add: getTranspileConfigOpt_def)

text \<open>
  C2.  For every enum-like field an input outside the allow-list, non-strings included,
  should give the field's default.  For \<open>proxy\<close> it does not: an absent (\<open>undefined\<close>)
  or numeric value is outside \<open>{defineproperty, null}\<close>, but the normalizer returns
  \<open>null\<close> instead of the default \<open>defineproperty\<close>, also through \<open>getTranspileConfig\<close>
  on an empty input; the sibling field \<open>module\<close> gets its default on the same input.
\<close>

theorem getTranspileConfigOpt_proxy_non_string:
  "JUndefined \<notin> VALID_PROXY \<and>
   getTranspileConfigOpt JUndefined VALID_PROXY (JStr ''defineproperty'') = JNull \<and>
   getTranspileConfigOpt (JNum (Fin 5)) VALID_PROXY (JStr ''defineproperty'') = JNull \<and>
   getTranspileConfigOpt JUndefined VALID_MODULE (JStr ''esm'') = JStr ''esm'' \<and>
   get_prop (compileOpts_initial env [] cd) ''proxy'' = JNull \<and>
   get_prop (compileOpts_initial env [] cd) ''module'' = JStr ''esm''"
  by (simp add: getTranspileConfigOpt_def VALID_PROXY_def VALID_MODULE_def compileOpts_initial_def)

text \<open>
  C6.  For every allow-list and every fallback the normalizer returns \<open>null\<close> on the
  input \<open>null\<close> and on the string \<open>"null"\<close>.  The allow-lists of \<open>componentMetadata\<close>
  and \<open>proxy\<close> contain \<open>null\<close> as an ordinary member, and for \<open>proxy\<close> the result on
  these inputs is \<open>null\<close> and not the default \<open>defineproperty\<close>.
\<close>

theorem getTranspileConfigOpt_null:
  "getTranspileConfigOpt JNull validValues defaultValue = JNull \<and>
   getTranspileConfigOpt (JStr ''null'') validValues defaultValue = JNull \<and>
   JNull \<in> VALID_METADATA \<and> JNull \<in> VALID_PROXY \<and>
   getTranspileConfigOpt JNull VALID_PROXY (JStr ''defineproperty'') \<noteq> JStr ''defineproperty'' \<and>
   getTranspileConfigOpt (JStr ''null'') VALID_PROXY (JStr ''defineproperty'') \<noteq> JStr ''defineproperty''"
  by (simp add: getTranspileConfigOpt_def VALID_METADATA_def VALID_PROXY_def)

theorem getTranspileConfigOpt_null_witness:
  "getTranspileConfigOpt JNull VALID_MODULE (JStr ''esm'') = JNull \<and>
   getTranspileConfigOpt (JStr ''null'') VALID_MODULE (JStr ''esm'') = JNull"
  using getTranspileConfigOpt_null [of VALID_MODULE "JStr ''esm''"] by simp

subsection \<open>Result scaffolding\<close>

lemma getTranspileResults_refused:
  assumes "\<not> isString (get_prop (props input) ''file'')" and "\<not> accepts_write input ''file''"
  shows "getTranspileResults parseImportPath code input = (input, Inl TypeError)"
  using assms by (simp add: getTranspileResults_def assign_prop_def)

lemma getTranspileResults_input:
  assumes "isString (get_prop (props input) ''file'') \<or> accepts_write input ''file''"
  shows "fst (getTranspileResults parseImportPath code input) =
           (if isString (get_prop (props input) ''file'') then input
            else input\<lparr>props := set_prop (props input) ''file'' (JStr ''module.tsx'')\<rparr>)"
  using assms
  by (auto simp: getTranspileResults_def assign_prop_def Let_def split: sum.splits)

lemma getTranspileResults_returned:
  assumes "isString (get_prop (props input) ''file'') \<or> accepts_write input ''file''"
  shows "snd (getTranspileResults parseImportPath code input) =
           (case parseImportPath (if isString (get_prop (props input) ''file'')
                                  then get_prop (props input) ''file'' else JStr ''module.tsx'') of
              Inl e \<Rightarrow> Inl e
            | Inr parsedImport \<Rightarrow>
                Inr [(''importData'', get_prop parsedImport ''data''),
                     (''results'',
                      JObj [(''code'', if isString code then code else JStr []),
                            (''data'', JArr []),
                            (''diagnostics'', JArr []),
                            (''inputFileExtension'', get_prop parsedImport ''ext''),
                            (''inputFilePath'',
                               if isString (get_prop (props input) ''file'')
                               then get_prop (props input) ''file'' else JStr ''module.tsx''),
                            (''imports'', JArr []),
                            (''map'', JNull),
                            (''outputFilePath'', JNull)])])"
  using assms
  by (auto simp: getTranspileResults_def assign_prop_def Let_def get_prop_set_prop split: sum.splits)

lemma getTranspileResults_plain_object:
  assumes "\<not> isString (get_prop ps ''file'')"
  shows "fst (getTranspileResults parseImportPath code (plain_object ps)) =
           plain_object (set_prop ps ''file'' (JStr ''module.tsx''))"
  using assms getTranspileResults_input [of "plain_object ps" parseImportPath code]
  by (simp add: plain_object_def accepts_write_def)

text \<open>
  C8, as stated, fails.  \<open>getTranspileResults\<close> can fail: on a frozen transpile input
  without a string \<open>file\<close> the assignment of the placeholder to \<open>input.file\<close> is
  refused and the call raises \<open>TypeError\<close>, with a path parser that never raises, and
  returns no envelope.
\<close>

theorem getTranspileResults_frozen_input:
  "\<not> isString (get_prop (props (frozen_object [(''module'', JStr ''cjs'')])) ''file'') \<and>
   getTranspileResults sample_parser (JStr ''let x = 1'') (frozen_object [(''module'', JStr ''cjs'')])
     = (frozen_object [(''module'', JStr ''cjs'')], Inl TypeError)"
  by (simp add: getTranspileResults_def assign_prop_def accepts_write_def frozen_object_def)

text \<open>
  C8, amended.  \<open>getTranspileResults\<close> raises \<open>TypeError\<close> when \<open>input.file\<close> is not a
  string and the input object refuses the assignment of \<open>file\<close> (a frozen or otherwise
  non-extensible object).  On every other code and input it fails only if the path
  parser raises, with the parser's exception; when the parser returns, the call returns
  an envelope with empty diagnostics and imports and \<open>null\<close> output path and source
  map, and, when \<open>input.file\<close> is not a string, with \<open>inputFilePath\<close> equal to
  \<open>"module.tsx"\<close> and \<open>inputFileExtension\<close> equal to the extension the parser gives
  for that placeholder.
\<close>

theorem getTranspileResults_envelope:
  "(\<not> isString (get_prop (props input) ''file'') \<and> \<not> accepts_write input ''file'' \<longrightarrow>
      getTranspileResults parseImportPath code input = (input, Inl TypeError)) \<and>
   (isString (get_prop (props input) ''file'') \<or> accepts_write input ''file'' \<longrightarrow>
      (\<forall>e. parseImportPath (if isString (get_prop (props input) ''file'')
                             then get_prop (props input) ''file'' else JStr ''module.tsx'') = Inl e \<longrightarrow>
           snd (getTranspileResults parseImportPath code input) = Inl e) \<and>
      (\<forall>parsedImport.
         parseImportPath (if isString (get_prop (props input) ''file'')
                          then get_prop (props input) ''file'' else JStr ''module.tsx'') = Inr parsedImport \<longrightarrow>
         (\<exists>results.
            snd (getTranspileResults parseImportPath code input) =
              Inr [(''importData'', get_prop parsedImport ''data''), (''results'', JObj results)] \<and>
            get_prop results ''diagnostics'' = JArr [] \<and>
            get_prop results ''imports'' = JArr [] \<and>
            get_prop results ''outputFilePath'' = JNull \<and>
            get_prop results ''map'' = JNull \<and>
            (\<not> isString (get_prop (props input) ''file'') \<longrightarrow>
               get_prop results ''inputFilePath'' = JStr ''module.tsx'' \<and>
               get_prop results ''inputFileExtension'' = get_prop parsedImport ''ext''))))"
proof (intro conjI impI allI)
  assume "\<not> isString (get_prop (props input) ''file'') \<and> \<not> accepts_write input ''file''"
  then show "getTranspileResults parseImportPath code input = (input, Inl TypeError)"
    by (simp add: getTranspileResults_refused)
next
  fix e
  assume ok: "isString (get_prop (props input) ''file'') \<or> accepts_write input ''file''"
    and p: "parseImportPath (if isString (get_prop (props input) ''file'')
                             then get_prop (props input) ''file'' else JStr ''module.tsx'') = Inl e"
  show "snd (getTranspileResults parseImportPath code input) = Inl e"
    using getTranspileResults_returned [OF ok, of parseImportPath code] p by simp
next
  fix parsedImport
  assume ok: "isString (get_prop (props input) ''file'') \<or> accepts_write input ''file''"
    and p: "parseImportPath (if isString (get_prop (props input) ''file'')
                             then get_prop (props input) ''file'' else JStr ''module.tsx'') = Inr parsedImport"
  show "\<exists>results.
            snd (getTranspileResults parseImportPath code input) =
              Inr [(''importData'', get_prop parsedImport ''data''), (''results'', JObj results)] \<and>
            get_prop results ''diagnostics'' = JArr [] \<and>
            get_prop results ''imports'' = JArr [] \<and>
            get_prop results ''outputFilePath'' = JNull \<and>
            get_prop results ''map'' = JNull \<and>
            (\<not> isString (get_prop (props input) ''file'') \<longrightarrow>
               get_prop results ''inputFilePath'' = JStr ''module.tsx'' \<and>
               get_prop results ''inputFileExtension'' = get_prop parsedImport ''ext'')"
    using getTranspileResults_returned [OF ok, of parseImportPath code] p by simp
qed

theorem getTranspileResults_envelope_witness:
  "accepts_write (plain_object [(''module'', JStr ''cjs'')]) ''file'' \<and>
   sample_parser (JStr ''module.tsx'') = Inr [(''ext'', JStr ''tsx''), (''data'', JNull)] \<and>
   (\<exists>results.
      snd (getTranspileResults sample_parser (JStr ''let x = 1'')
             (plain_object [(''module'', JStr ''cjs'')]))
        = Inr [(''importData'', JNull), (''results'', JObj results)] \<and>
      get_prop results ''diagnostics'' = JArr [] \<and>
      get_prop results ''imports'' = JArr [] \<and>
      get_prop results ''outputFilePath'' = JNull \<and>
      get_prop results ''map'' = JNull \<and>
      get_prop results ''inputFilePath'' = JStr ''module.tsx'' \<and>
      get_prop results ''inputFileExtension'' = JStr ''tsx'')"
proof -
  have a: "accepts_write (plain_object [(''module'', JStr ''cjs'')]) ''file''"
    by (simp add: accepts_write_def plain_object_def)
  have n: "\<not> isString (get_prop (props (plain_object [(''module'', JStr ''cjs'')])) ''file'')"
    by (simp add: plain_object_def)
  have p: "sample_parser (JStr ''module.tsx'') = Inr [(''ext'', JStr ''tsx''), (''data'', JNull)]"
    by (simp add: sample_parser_def)
  show ?thesis
    using a n p getTranspileResults_envelope
                  [of "plain_object [(''module'', JStr ''cjs'')]" sample_parser "JStr ''let x = 1''"]
    by auto
qed

text \<open>
  C10.  When \<open>input.file\<close> is not a string, \<open>getTranspileResults\<close> writes the
  placeholder into the caller's input object: whenever the object accepts the write, and
  so whenever the call returns, \<open>input.file\<close> is \<open>"module.tsx"\<close> after the call, the
  object differs from what was passed, and every other property and the object's
  attributes are as before, also when the path parser raises afterwards.  When the
  object refuses the write the call raises and there is no return.
\<close>

theorem getTranspileResults_assigns_file:
  "\<not> isString (get_prop (props input) ''file'') \<Longrightarrow>
   (accepts_write input ''file'' \<longrightarrow>
      fst (getTranspileResults parseImportPath code input) =
        input\<lparr>props := set_prop (props input) ''file'' (JStr ''module.tsx'')\<rparr> \<and>
      get_prop (props (fst (getTranspileResults parseImportPath code input))) ''file'' = JStr ''module.tsx'' \<and>
      fst (getTranspileResults parseImportPath code input) \<noteq> input \<and>
      (\<forall>k. k \<noteq> ''file'' \<longrightarrow>
         get_prop (props (fst (getTranspileResults parseImportPath code input))) k =
           get_prop (props input) k)) \<and>
   (\<not> accepts_write input ''file'' \<longrightarrow>
      getTranspileResults parseImportPath code input = (input, Inl TypeError)) \<and>
   (\<forall>out. snd (getTranspileResults parseImportPath code input) = Inr out \<longrightarrow>
      fst (getTranspileResults parseImportPath code input) =
        input\<lparr>props := set_prop (props input) ''file'' (JStr ''module.tsx'')\<rparr>)"
proof -
  assume ns: "\<not> isString (get_prop (props input) ''file'')"
  let ?input' = "input\<lparr>props := set_prop (props input) ''file'' (JStr ''module.tsx'')\<rparr>"
  have written: "accepts_write input ''file'' \<Longrightarrow>
                   fst (getTranspileResults parseImportPath code input) = ?input'"
    using ns getTranspileResults_input [of input parseImportPath code] by simp
  have refused: "\<not> accepts_write input ''file'' \<Longrightarrow>
                   getTranspileResults parseImportPath code input = (input, Inl TypeError)"
    using ns by (simp add: getTranspileResults_refused)
  have rd: "get_prop (props ?input') ''file'' = JStr ''module.tsx''"
    by (simp add: get_prop_set_prop)
  have neq: "?input' \<noteq> input"
  proof
    assume "?input' = input"
    then have "props ?input' = props input" by simp
    with rd have "get_prop (props input) ''file'' = JStr ''module.tsx''" by simp
    with ns show False by simp
  qed
  have other: "\<forall>k. k \<noteq> ''file'' \<longrightarrow> get_prop (props ?input') k = get_prop (props input) k"
    by (simp add: get_prop_set_prop)
  have returned: "\<forall>out. snd (getTranspileResults parseImportPath code input) = Inr out \<longrightarrow>
                    fst (getTranspileResults parseImportPath code input) = ?input'"
  proof (intro allI impI)
    fix out assume r: "snd (getTranspileResults parseImportPath code input) = Inr out"
    have "accepts_write input ''file''"
    proof (rule ccontr)
      assume "\<not> accepts_write input ''file''"
      from refused [OF this] r show False by simp
    qed
    then show "fst (getTranspileResults parseImportPath code input) = ?input'" by (rule written)
  qed
  show ?thesis
  proof (intro conjI impI)
    assume a: "accepts_write input ''file''"
    show "fst (getTranspileResults parseImportPath code input) = ?input'" by (rule written [OF a])
    show "get_prop (props (fst (getTranspileResults parseImportPath code input))) ''file'' = JStr ''module.tsx''"
      using written [OF a] rd by simp
    show "fst (getTranspileResults parseImportPath code input) \<noteq> input"
      using written [OF a] neq by simp
    show "\<forall>k. k \<noteq> ''file'' \<longrightarrow>
            get_prop (props (fst (getTranspileResults parseImportPath code input))) k =
              get_prop (props input) k"
      using written [OF a] other by simp
  next
    assume "\<not> accepts_write input ''file''"
    then show "getTranspileResults parseImportPath code input = (input, Inl TypeError)"
      by (rule refused)
  next
    show "\<forall>out. snd (getTranspileResults parseImportPath code input) = Inr out \<longrightarrow>
            fst (getTranspileResults parseImportPath code input) = ?input'"
      by (rule returned)
  qed
qed

theorem getTranspileResults_assigns_file_witness:
  "\<not> isString (get_prop (props (plain_object [(''file'', JNull), (''module'', JStr ''cjs'')])) ''file'') \<and>
   accepts_write (plain_object [(''file'', JNull), (''module'', JStr ''cjs'')]) ''file'' \<and>
   fst (getTranspileResults sample_parser (JStr ''let x = 1'')
          (plain_object [(''file'', JNull), (''module'', JStr ''cjs'')]))
     = plain_object [(''file'', JStr ''module.tsx''), (''module'', JStr ''cjs'')]"
proof -
  have n: "\<not> isString (get_prop (props (plain_object [(''file'', JNull), (''module'', JStr ''cjs'')])) ''file'')"
    by (simp add: plain_object_def)
  have a: "accepts_write (plain_object [(''file'', JNull), (''module'', JStr ''cjs'')]) ''file''"
    by (simp add: accepts_write_def plain_object_def)
  show ?thesis
    using n a getTranspileResults_assigns_file
                [OF n, of sample_parser "JStr ''let x = 1''"]
    by (simp add: plain_object_def)
qed

subsection \<open>The system memo\<close>

lemma getTranspileConfig_ctx:
  "fst (getTranspileConfig env input ctx) = resolve_sys env input ctx"
  by (simp add: getTranspileConfig_def Let_def split: sum.splits)

lemma getTranspileConfig_result:
  "snd (getTranspileConfig env input ctx) = Inr tc \<Longrightarrow>
   config_sys tc = sys (resolve_sys env input ctx)"
  by (auto simp: getTranspileConfig_def Let_def config_sys_def transpile_build_config_def
           split: sum.splits)

lemma getTranspileConfig_error:
  "snd (getTranspileConfig env input ctx) = Inl e \<Longrightarrow>
   \<not> isString (get_prop input ''currentDirectory'') \<and>
   getCurrentDirectory env (sys (resolve_sys env input ctx)) = Inl e"
  by (auto simp: getTranspileConfig_def Let_def resolve_currentDirectory_def
           split: sum.splits if_splits)

lemma getTranspileConfig_calls_keep_memo:
  assumes "truthy (sys ctx)" and "\<forall>i \<in> set later. \<not> truthy (get_prop i ''sys'')"
  shows "fst (getTranspileConfig_calls env later ctx) = ctx \<and>
         (\<forall>r \<in> set (snd (getTranspileConfig_calls env later ctx)).
            case r of Inl e \<Rightarrow> getCurrentDirectory env (sys ctx) = Inl e
                    | Inr tc \<Rightarrow> config_sys tc = sys ctx)"
  using assms
proof (induction later)
  case Nil
  then show ?case by simp
next
  case (Cons i later)
  have no: "\<not> truthy (get_prop i ''sys'')" using Cons.prems by simp
  have keep: "resolve_sys env i ctx = ctx"
    using no Cons.prems(1) by (simp add: resolve_sys_def)
  obtain c r where cr: "getTranspileConfig env i ctx = (c, r)"
    by (cases "getTranspileConfig env i ctx")
  have c: "c = ctx" using cr keep getTranspileConfig_ctx [of env i ctx] by simp
  have r: "case r of Inl e \<Rightarrow> getCurrentDirectory env (sys ctx) = Inl e
                   | Inr tc \<Rightarrow> config_sys tc = sys ctx"
  proof (cases r)
    case (Inl e)
    then show ?thesis using getTranspileConfig_error [of env i ctx e] cr keep by simp
  next
    case (Inr tc)
    then show ?thesis using getTranspileConfig_result [of env i ctx tc] cr keep by simp
  qed
  have IH: "fst (getTranspileConfig_calls env later ctx) = ctx \<and>
         (\<forall>r \<in> set (snd (getTranspileConfig_calls env later ctx)).
            case r of Inl e \<Rightarrow> getCurrentDirectory env (sys ctx) = Inl e
                    | Inr tc \<Rightarrow> config_sys tc = sys ctx)"
    using Cons.IH Cons.prems by simp
  show ?case using cr c r IH by (simp add: split_beta)
qed

text \<open>
  C9.  A call whose input supplies a system overwrites the memo slot with it, whatever
  the slot held before (the constructed default included).  In every run of later calls
  that supply no system the slot keeps the caller's system, and each of these calls
  either returns a configuration whose \<open>config.sys\<close> is the caller's system, or fails
  because that system's working-directory query fails; the default system is not used.
\<close>

theorem transpileCtx_sys_overwritten:
  assumes "truthy (get_prop input ''sys'')"
    and "\<forall>i \<in> set later. \<not> truthy (get_prop i ''sys'')"
  shows "sys (fst (getTranspileConfig env input ctx)) = get_prop input ''sys'' \<and>
         fst (getTranspileConfig_calls env later (fst (getTranspileConfig env input ctx)))
           = fst (getTranspileConfig env input ctx) \<and>
         (\<forall>r \<in> set (snd (getTranspileConfig_calls env later (fst (getTranspileConfig env input ctx)))).
            case r of Inl e \<Rightarrow> getCurrentDirectory env (get_prop input ''sys'') = Inl e
                    | Inr tc \<Rightarrow> config_sys tc = get_prop input ''sys'')"
proof -
  let ?ctx = "fst (getTranspileConfig env input ctx)"
  have s: "sys ?ctx = get_prop input ''sys''"
    using assms(1) by (simp add: getTranspileConfig_ctx resolve_sys_def)
  have t: "truthy (sys ?ctx)" using s assms(1) by simp
  show ?thesis
    using getTranspileConfig_calls_keep_memo [OF t assms(2), of env] s
    by (auto split: sum.splits)
qed


theorem transpileCtx_sys_overwritten_witness:
  "truthy (get_prop [(''sys'', sample_sys)] ''sys'') \<and>
   sys (fst (getTranspileConfig sample_env [(''sys'', sample_sys)]
               \<lparr>sys = createNodeSys sample_env\<rparr>)) = sample_sys \<and>
   fst (getTranspileConfig_calls sample_env [[], [(''currentDirectory'', JStr ''/tmp'')]]
          (fst (getTranspileConfig sample_env [(''sys'', sample_sys)]
                  \<lparr>sys = createNodeSys sample_env\<rparr>)))
     = \<lparr>sys = sample_sys\<rparr> \<and>
   map (map_sum id config_sys)
     (snd (getTranspileConfig_calls sample_env [[], [(''currentDirectory'', JStr ''/tmp'')]]
             (fst (getTranspileConfig sample_env [(''sys'', sample_sys)]
                     \<lparr>sys = createNodeSys sample_env\<rparr>))))
     = [Inr sample_sys, Inr sample_sys]"
proof -
  let ?later = "[[], [(''currentDirectory'', JStr ''/tmp'')]] :: jsobj list"
  have a: "truthy (get_prop [(''sys'', sample_sys)] ''sys'')"
    by (simp add: sample_sys_def)
  have b: "\<forall>i \<in> set ?later. \<not> truthy (get_prop i ''sys'')"
    by simp
  have c: "fst (getTranspileConfig sample_env [(''sys'', sample_sys)]
                  \<lparr>sys = createNodeSys sample_env\<rparr>) = \<lparr>sys = sample_sys\<rparr>"
    using a by (simp add: getTranspileConfig_ctx resolve_sys_def)
  have d: "getCurrentDirectory sample_env sample_sys = Inr (JStr ''/work'')"
    by (simp add: sample_env_def sample_sys_def)
  note T = transpileCtx_sys_overwritten
             [OF a b, of sample_env "\<lparr>sys = createNodeSys sample_env\<rparr>", unfolded c]
  have keep: "fst (getTranspileConfig_calls sample_env ?later \<lparr>sys = sample_sys\<rparr>)
                = \<lparr>sys = sample_sys\<rparr>"
    using T by simp
  have each: "\<And>r. r \<in> set (snd (getTranspileConfig_calls sample_env ?later \<lparr>sys = sample_sys\<rparr>))
              \<Longrightarrow> map_sum id config_sys r = Inr sample_sys"
  proof -
    fix r assume "r \<in> set (snd (getTranspileConfig_calls sample_env ?later \<lparr>sys = sample_sys\<rparr>))"
    with T have "case r of Inl e \<Rightarrow> getCurrentDirectory sample_env (get_prop [(''sys'', sample_sys)] ''sys'') = Inl e
                    | Inr tc \<Rightarrow> config_sys tc = get_prop [(''sys'', sample_sys)] ''sys''"
      by blast
    then show "map_sum id config_sys r = Inr sample_sys"
      using d by (cases r) simp_all
  qed
  have len: "length (snd (getTranspileConfig_calls sample_env ?later \<lparr>sys = sample_sys\<rparr>)) = 2"
    by (simp add: split_beta)
  have res: "map (map_sum id config_sys)
               (snd (getTranspileConfig_calls sample_env ?later \<lparr>sys = sample_sys\<rparr>))
             = [Inr sample_sys, Inr sample_sys]"
    using each len
    by (cases "snd (getTranspileConfig_calls sample_env ?later \<lparr>sys = sample_sys\<rparr>)"; 
        cases "tl (snd (getTranspileConfig_calls sample_env ?later \<lparr>sys = sample_sys\<rparr>))") auto
  show ?thesis
    using a T keep res unfolding c by simp
qed

section \<open>Properties of the full validation\<close>

subsection \<open>Property lists\<close>

lemma get_prop_filter_other:
  "get_prop (filter (\<lambda>p. fst p \<noteq> k') ps) k = (if k = k' then JUndefined else get_prop ps k)"
  by (induction ps) auto

lemma get_prop_spread_into:
  "get_prop (spread_into t ps) k = (if k \<in> fst ` set ps then get_prop ps k else get_prop t k)"
proof (induction t ps rule: spread_into.induct)
  case (1 target)
  then show ?case by (simp add: spread_into.simps)
next
  case (2 target k' v ps)
  show ?case
  proof (cases "k = k'")
    case True
    then show ?thesis using 2 by (auto simp: spread_into.simps get_prop_set_prop get_prop_filter_other)
  next
    case False
    then show ?thesis using 2 by (force simp: spread_into.simps get_prop_set_prop get_prop_filter_other)
  qed
qed

lemma get_prop_absent: "k \<notin> fst ` set ps \<Longrightarrow> get_prop ps k = JUndefined"
  by (induction ps) auto

lemma get_prop_spread_empty: "get_prop (spread_into [] ps) k = get_prop ps k"
  by (cases "k \<in> fst ` set ps") (simp_all add: get_prop_spread_into get_prop_absent)

lemma keys_set_prop: "fst ` set (set_prop ps k v) = insert k (fst ` set ps)"
  by (induction ps k v rule: set_prop.induct) auto

lemma keys_spread_into: "fst ` set (spread_into t ps) = fst ` set t \<union> fst ` set ps"
proof (induction t ps rule: spread_into.induct)
  case (1 target)
  then show ?case by (simp add: spread_into.simps)
next
  case (2 target k v ps)
  have "fst ` set (filter (\<lambda>p. fst p \<noteq> k) ps) = fst ` set ps - {k}" by force
  then show ?case using 2 by (auto simp: spread_into.simps keys_set_prop)
qed

subsection \<open>The stages, field by field\<close>

lemma setBooleanConfig_other:
  "k \<noteq> n \<Longrightarrow> get_prop (setBooleanConfig c n f d) k = get_prop c k"
  by (simp add: setBooleanConfig_def Let_def get_prop_set_prop)

lemma boolean_step_other:
  "k \<noteq> n \<Longrightarrow> get_prop (boolean_step n f d c) k = get_prop c k"
  by (simp add: boolean_step_def setBooleanConfig_other)

lemma resolve_buildEs5_other:
  "k \<noteq> ''buildEs5'' \<Longrightarrow> get_prop (resolve_buildEs5 c) k = get_prop c k"
  by (simp add: resolve_buildEs5_def get_prop_set_prop)

lemma default_taskQueue_other:
  "k \<noteq> ''taskQueue'' \<Longrightarrow> get_prop (default_taskQueue c) k = get_prop c k"
  by (simp add: default_taskQueue_def get_prop_set_prop)

lemma default_hashFileNames_other:
  "k \<noteq> ''hashFileNames'' \<Longrightarrow> get_prop (default_hashFileNames c) k = get_prop c k"
  by (simp add: default_hashFileNames_def get_prop_set_prop)

lemma resolve_booleans_other:
  assumes "k \<notin> {''buildEs5'', ''minifyCss'', ''minifyJs'', ''sourceMap'', ''watch'', ''buildDocs'',
                 ''buildDist'', ''profile'', ''writeLog'', ''buildAppCore'', ''autoprefixCss'',
                 ''validateTypes'', ''allowInlineScripts'', ''taskQueue'', ''hashFileNames''}"
  shows "get_prop (resolve_booleans c) k = get_prop c k"
  using assms
  by (simp add: resolve_booleans_def boolean_step_other resolve_buildEs5_other
        default_taskQueue_other default_hashFileNames_other)

lemma assemble_flags:
  assumes "''flags'' \<notin> fst ` set (validatePaths E (spread_into [] u))"
  shows "get_prop (assemble E u b) ''flags'' = json_roundtrip (js_or (get_prop u ''flags'') (JObj []))"
  using assms
  by (simp add: assemble_def Let_def get_prop_spread_into get_prop_spread_empty keys_spread_into
        get_prop_absent)

lemma assemble_other:
  assumes "k \<notin> fst ` set (validatePaths E (spread_into [] u))"
    and "k \<notin> {''devServer'', ''flags'', ''hydratedFlag'', ''logger'', ''outputTargets'', ''rollupConfig'',
               ''sys'', ''testing'', ''transformAliasedImportPaths'',
               ''validatePrimaryPackageOutputTarget''}"
  shows "get_prop (assemble E u b) k = get_prop u k"
  using assms
  by (auto simp: assemble_def Let_def get_prop_spread_into get_prop_spread_empty keys_spread_into
        get_prop_absent)

lemma keeps_paths: "keeps E k \<Longrightarrow> k \<notin> fst ` set (validatePaths E c)"
  by (simp add: keeps_def)

lemma json_roundtrip_object:
  "optional_object fl \<Longrightarrow> \<exists>fs. json_roundtrip (js_or fl (JObj [])) = JObj fs"
  by (cases fl) (simp_all add: js_or_def)

lemma resolve_devMode_result:
  assumes "get_prop c ''flags'' = JObj fs"
  shows "\<exists>c'. resolve_devMode c = Inr c' \<and>
           (\<forall>k. k \<noteq> ''devMode'' \<longrightarrow> get_prop c' k = get_prop c k) \<and>
           get_prop c' ''devMode'' =
             JBool (if truthy (get_prop fs ''prod'') then False
                    else if truthy (get_prop fs ''dev'') then True
                    else if isBoolean (get_prop c ''devMode'') then get_prop c ''devMode'' = JBool True
                    else False)"
proof (cases "get_prop c ''devMode''")
  case (JBool x)
  then show ?thesis using assms
    by (auto simp: resolve_devMode_def get_prop_set_prop DEFAULT_DEV_MODE_def)
qed (use assms in \<open>auto simp: resolve_devMode_def get_prop_set_prop DEFAULT_DEV_MODE_def\<close>)

lemma normalize_extras_result:
  assumes "optional_object (get_prop c ''extras'')"
  shows "normalize_extras c =
           Inr (set_prop c ''extras''
                  (JObj (normalize_extras_object
                           (case get_prop c ''extras'' of JObj e \<Rightarrow> e | _ \<Rightarrow> []))))"
  using assms by (cases "get_prop c ''extras''") (simp_all add: normalize_extras_def js_or_def)

lemma default_hashedFileNameLength_other:
  "k \<noteq> ''hashedFileNameLength'' \<Longrightarrow> get_prop (default_hashedFileNameLength c) k = get_prop c k"
  by (simp add: default_hashedFileNameLength_def get_prop_set_prop)

lemma default_hashedFileNameLength_value:
  "get_prop (default_hashedFileNameLength c) ''hashedFileNameLength'' =
     (if isNumber (get_prop c ''hashedFileNameLength'') then get_prop c ''hashedFileNameLength''
      else JNum (Fin 8))"
  by (simp add: default_hashedFileNameLength_def get_prop_set_prop DEFAULT_HASHED_FILENAME_LENTH_def)

lemma default_env_other:
  "k \<noteq> ''env'' \<Longrightarrow> get_prop (default_env c) k = get_prop c k"
  by (simp add: default_env_def get_prop_set_prop)

lemma delegate_validators_keeps:
  assumes "keeps E k" and "k \<noteq> ''devServer''"
  shows "get_prop (fst (delegate_validators E (c, d))) k = get_prop c k"
  using assms
  by (simp add: delegate_validators_def keeps_def split_beta Let_def get_prop_set_prop)

lemma delegate_validators_appends:
  assumes "appends E"
  shows "\<exists>d'. snd (delegate_validators E (c, d)) = d @ d'"
proof -
  obtain c1 d1 where s1: "validateNamespace E c d = (c1, d1)" by (cases "validateNamespace E c d")
  obtain c2 d2 where s2: "validateOutputTargets E c1 d1 = (c2, d2)" by (cases "validateOutputTargets E c1 d1")
  obtain c3 d3 where s3: "validatePlugins E c2 d2 = (c3, d3)" by (cases "validatePlugins E c2 d2")
  obtain dv c4 d4 where s4: "validateDevServer E c3 d3 = (dv, c4, d4)" by (cases "validateDevServer E c3 d3")
  obtain c5 d5 where s5: "validateTesting E (set_prop c4 ''devServer'' dv) d4 = (c5, d5)"
    by (cases "validateTesting E (set_prop c4 ''devServer'' dv) d4")
  from assms obtain e1 where e1: "d1 = d @ e1" using s1 unfolding appends_def by (metis snd_conv)
  from assms obtain e2 where e2: "d2 = d1 @ e2" using s2 unfolding appends_def by (metis snd_conv)
  from assms obtain e3 where e3: "d3 = d2 @ e3" using s3 unfolding appends_def by (metis snd_conv)
  from assms obtain e4 where e4: "d4 = d3 @ e4" using s4 unfolding appends_def by (metis snd_conv)
  from assms obtain e5 where e5: "d5 = d4 @ e5" using s5 unfolding appends_def by (metis snd_conv)
  have "snd (delegate_validators E (c, d)) = d5"
    by (simp add: delegate_validators_def s1 s2 s3 s4 s5)
  then show ?thesis using e1 e2 e3 e4 e5 by simp
qed

lemma delegate_validators_silent:
  assumes "silent E"
  shows "snd (delegate_validators E (c, d)) = d"
  using assms by (simp add: delegate_validators_def silent_def split_beta Let_def)

lemma bundle_keys_typed:
  "list_all typed_bundle bs \<Longrightarrow> \<exists>kas. bundle_keys bs = Inr kas"
proof (induction bs)
  case Nil
  then show ?case by simp
next
  case (Cons b bs)
  then obtain kas where kas: "bundle_keys bs = Inr kas" by auto
  from Cons.prems obtain ps xs where b: "b = JObj ps" and cs: "get_prop ps ''components'' = JArr xs"
    by (cases b; cases "get_prop (case b of JObj ps \<Rightarrow> ps | _ \<Rightarrow> []) ''components''") auto
  then have "bundle_key b = Inr (length xs)" by (simp add: bundle_key_def)
  then show ?case using kas by simp
qed

lemma sort_bundles_result:
  assumes "typed_bundles (get_prop c ''bundles'')"
  shows "\<exists>c'. sort_bundles c = Inr c' \<and> (\<forall>k. k \<noteq> ''bundles'' \<longrightarrow> get_prop c' k = get_prop c k)"
proof (cases "get_prop c ''bundles''")
  case (JArr bs)
  with assms obtain kas where "bundle_keys bs = Inr kas" using bundle_keys_typed by auto
  then show ?thesis using JArr by (simp add: sort_bundles_def sortBy_def get_prop_set_prop)
qed (simp_all add: sort_bundles_def get_prop_set_prop)

lemma finish_validators_keeps:
  assumes "keeps E k" and "k \<noteq> ''devInspector''" and "k \<noteq> ''enableCache''"
  shows "get_prop (fst (finish_validators E (c, d))) k = get_prop c k"
  using assms
  by (simp add: finish_validators_def keeps_def split_beta Let_def boolean_step_other)

lemma finish_validators_appends:
  assumes "appends E"
  shows "\<exists>d'. snd (finish_validators E (c, d)) = d @ d'"
  using assms by (auto simp: finish_validators_def appends_def split_beta Let_def)

lemma finish_validators_silent:
  assumes "silent E"
  shows "snd (finish_validators E (c, d)) = d"
  using assms by (simp add: finish_validators_def silent_def split_beta Let_def)

lemma normalize_watchIgnoredRegex_other:
  "k \<noteq> ''watchIgnoredRegex'' \<Longrightarrow> get_prop (normalize_watchIgnoredRegex c) k = get_prop c k"
  by (simp add: normalize_watchIgnoredRegex_def Let_def get_prop_set_prop)

lemma normalize_watchIgnoredRegex_value:
  "get_prop (normalize_watchIgnoredRegex c) ''watchIgnoredRegex'' =
     JArr (filter isRegExp
             (case get_prop c ''watchIgnoredRegex'' of
                JArr regs \<Rightarrow> regs | JUndefined \<Rightarrow> [] | JNull \<Rightarrow> [] | v \<Rightarrow> [v]))"
  by (cases "get_prop c ''watchIgnoredRegex''")
     (simp_all add: normalize_watchIgnoredRegex_def Let_def get_prop_set_prop nullish_def js_or_def)

lemma keeps_core:
  assumes "respects_core E"
  shows "keeps E ''flags''" "keeps E ''devMode''" "keeps E ''extras''"
    "keeps E ''hashedFileNameLength''" "keeps E ''bundles''" "keeps E ''watchIgnoredRegex''"
  using assms by (simp_all add: respects_core_def core_fields_def)

lemma check_hashedFileNameLength_cong:
  "get_prop c ''hashedFileNameLength'' = get_prop c' ''hashedFileNameLength'' \<Longrightarrow>
   check_hashedFileNameLength c d = check_hashedFileNameLength c' d"
  by (simp add: check_hashedFileNameLength_def)

lemma validate_fresh_result:
  assumes ty: "typed_config u" and rc: "respects_core E"
  shows "\<exists>c ds. validate_fresh E u b = Inr (c, ds) \<and>
      get_prop c ''devMode'' =
        JBool (if flag_set u ''prod'' then False
               else if flag_set u ''dev'' then True
               else if isBoolean (get_prop u ''devMode'') then get_prop u ''devMode'' = JBool True
               else False) \<and>
      get_prop c ''extras'' =
        JObj (normalize_extras_object (case get_prop u ''extras'' of JObj e \<Rightarrow> e | _ \<Rightarrow> [])) \<and>
      get_prop c ''hashedFileNameLength'' =
        (if isNumber (get_prop u ''hashedFileNameLength'') then get_prop u ''hashedFileNameLength''
         else JNum (Fin 8)) \<and>
      get_prop c ''watchIgnoredRegex'' =
        JArr (filter isRegExp
                (case get_prop u ''watchIgnoredRegex'' of
                   JArr regs \<Rightarrow> regs | JUndefined \<Rightarrow> [] | JNull \<Rightarrow> [] | v \<Rightarrow> [v])) \<and>
      (appends E \<longrightarrow>
         (\<exists>rest. ds = check_hashedFileNameLength
                         [(''hashedFileNameLength'',
                           if isNumber (get_prop u ''hashedFileNameLength'')
                           then get_prop u ''hashedFileNameLength'' else JNum (Fin 8))] [] @ rest)) \<and>
      (silent E \<longrightarrow>
         ds = check_hashedFileNameLength
                [(''hashedFileNameLength'',
                  if isNumber (get_prop u ''hashedFileNameLength'')
                  then get_prop u ''hashedFileNameLength'' else JNum (Fin 8))] [])"
proof -
  note kc = keeps_core [OF rc]
  let ?hv = "if isNumber (get_prop u ''hashedFileNameLength'') then get_prop u ''hashedFileNameLength''
             else JNum (Fin 8)"
  define a0 where "a0 = assemble E u b"
  \<comment> \<open>the object literal\<close>
  have a0_flags: "get_prop a0 ''flags'' = json_roundtrip (js_or (get_prop u ''flags'') (JObj []))"
    unfolding a0_def by (rule assemble_flags) (rule keeps_paths [OF kc(1)])
  have a0_devMode: "get_prop a0 ''devMode'' = get_prop u ''devMode''"
    unfolding a0_def by (rule assemble_other) (simp_all add: keeps_paths [OF kc(2)])
  have a0_extras: "get_prop a0 ''extras'' = get_prop u ''extras''"
    unfolding a0_def by (rule assemble_other) (simp_all add: keeps_paths [OF kc(3)])
  have a0_hash: "get_prop a0 ''hashedFileNameLength'' = get_prop u ''hashedFileNameLength''"
    unfolding a0_def by (rule assemble_other) (simp_all add: keeps_paths [OF kc(4)])
  have a0_bundles: "get_prop a0 ''bundles'' = get_prop u ''bundles''"
    unfolding a0_def by (rule assemble_other) (simp_all add: keeps_paths [OF kc(5)])
  have a0_watch: "get_prop a0 ''watchIgnoredRegex'' = get_prop u ''watchIgnoredRegex''"
    unfolding a0_def by (rule assemble_other) (simp_all add: keeps_paths [OF kc(6)])
  \<comment> \<open>devMode\<close>
  from ty obtain fs where fs: "json_roundtrip (js_or (get_prop u ''flags'') (JObj [])) = JObj fs"
    using json_roundtrip_object unfolding typed_config_def by blast
  have fl: "flag_set u ''prod'' = truthy (get_prop fs ''prod'')"
           "flag_set u ''dev'' = truthy (get_prop fs ''dev'')"
    by (simp_all add: flag_set_def fs)
  from resolve_devMode_result [of a0 fs] a0_flags fs
  obtain c1 where c1: "resolve_devMode a0 = Inr c1"
    and c1_other: "\<And>k. k \<noteq> ''devMode'' \<Longrightarrow> get_prop c1 k = get_prop a0 k"
    and c1_devMode: "get_prop c1 ''devMode'' =
             JBool (if flag_set u ''prod'' then False
                    else if flag_set u ''dev'' then True
                    else if isBoolean (get_prop u ''devMode'') then get_prop u ''devMode'' = JBool True
                    else False)"
    unfolding fl a0_devMode by auto
  \<comment> \<open>extras\<close>
  define c2 where "c2 = set_prop c1 ''extras''
                  (JObj (normalize_extras_object (case get_prop u ''extras'' of JObj e \<Rightarrow> e | _ \<Rightarrow> [])))"
  have "optional_object (get_prop c1 ''extras'')"
    using ty by (simp add: c1_other a0_extras typed_config_def)
  then have c2: "normalize_extras c1 = Inr c2"
    unfolding c2_def using normalize_extras_result [of c1] by (simp add: c1_other a0_extras)
  have c2_other: "\<And>k. k \<noteq> ''extras'' \<Longrightarrow> get_prop c2 k = get_prop c1 k"
    by (simp add: c2_def get_prop_set_prop)
  have c2_extras: "get_prop c2 ''extras'' =
       JObj (normalize_extras_object (case get_prop u ''extras'' of JObj e \<Rightarrow> e | _ \<Rightarrow> []))"
    by (simp add: c2_def get_prop_set_prop)
  \<comment> \<open>booleans and the hashed file name length\<close>
  define c3 where "c3 = default_hashedFileNameLength (resolve_booleans c2)"
  define d3 where "d3 = check_hashedFileNameLength c3 []"
  have c3_hash: "get_prop c3 ''hashedFileNameLength'' = ?hv"
    by (simp add: c3_def default_hashedFileNameLength_value resolve_booleans_other c2_other c1_other
          a0_hash)
  have c3_devMode: "get_prop c3 ''devMode'' = get_prop c1 ''devMode''"
    by (simp add: c3_def default_hashedFileNameLength_other resolve_booleans_other c2_other)
  have c3_extras: "get_prop c3 ''extras'' = get_prop c2 ''extras''"
    by (simp add: c3_def default_hashedFileNameLength_other resolve_booleans_other)
  have c3_bundles: "get_prop c3 ''bundles'' = get_prop u ''bundles''"
    by (simp add: c3_def default_hashedFileNameLength_other resolve_booleans_other c2_other c1_other
          a0_bundles)
  have c3_watch: "get_prop c3 ''watchIgnoredRegex'' = get_prop u ''watchIgnoredRegex''"
    by (simp add: c3_def default_hashedFileNameLength_other resolve_booleans_other c2_other c1_other
          a0_watch)
  have d3_eq: "d3 = check_hashedFileNameLength [(''hashedFileNameLength'', ?hv)] []"
    unfolding d3_def by (rule check_hashedFileNameLength_cong) (simp add: c3_hash)
  \<comment> \<open>the delegated validators\<close>
  obtain c4 d4 where s4: "delegate_validators E (default_env c3, d3) = (c4, d4)"
    by (cases "delegate_validators E (default_env c3, d3)")
  have c4_keep: "\<And>k. keeps E k \<Longrightarrow> k \<noteq> ''devServer'' \<Longrightarrow> k \<noteq> ''env'' \<Longrightarrow>
                   get_prop c4 k = get_prop c3 k"
    using delegate_validators_keeps [of E _ "default_env c3" d3] s4
    by (simp add: default_env_other)
  \<comment> \<open>bundles\<close>
  have "typed_bundles (get_prop c4 ''bundles'')"
    using ty by (simp add: c4_keep [OF kc(5)] c3_bundles typed_config_def)
  from sort_bundles_result [OF this]
  obtain c5 where c5: "sort_bundles c4 = Inr c5"
    and c5_other: "\<And>k. k \<noteq> ''bundles'' \<Longrightarrow> get_prop c5 k = get_prop c4 k"
    by blast
  \<comment> \<open>the last validators and the watch list\<close>
  obtain c6 d6 where s6: "finish_validators E (c5, d4) = (c6, d6)"
    by (cases "finish_validators E (c5, d4)")
  have c6_keep: "\<And>k. keeps E k \<Longrightarrow> k \<noteq> ''devInspector'' \<Longrightarrow> k \<noteq> ''enableCache'' \<Longrightarrow>
                   get_prop c6 k = get_prop c5 k"
    using finish_validators_keeps [of E _ c5 d4] s6 by simp
  define c7 where "c7 = normalize_watchIgnoredRegex c6"
  have res: "validate_fresh E u b = Inr (c7, d6)"
    by (simp add: validate_fresh_def a0_def [symmetric] c1 c2 c3_def [symmetric] d3_def [symmetric]
          Let_def s4 c5 s6 c7_def)
  have r_devMode: "get_prop c7 ''devMode'' = get_prop c1 ''devMode''"
    by (simp add: c7_def normalize_watchIgnoredRegex_other c6_keep [OF kc(2)] c5_other
          c4_keep [OF kc(2)] c3_devMode)
  have r_extras: "get_prop c7 ''extras'' = get_prop c2 ''extras''"
    by (simp add: c7_def normalize_watchIgnoredRegex_other c6_keep [OF kc(3)] c5_other
          c4_keep [OF kc(3)] c3_extras)
  have r_hash: "get_prop c7 ''hashedFileNameLength'' = ?hv"
    by (simp add: c7_def normalize_watchIgnoredRegex_other c6_keep [OF kc(4)] c5_other
          c4_keep [OF kc(4)] c3_hash)
  have c6_watch: "get_prop c6 ''watchIgnoredRegex'' = get_prop u ''watchIgnoredRegex''"
    by (simp add: c6_keep [OF kc(6)] c5_other c4_keep [OF kc(6)] c3_watch)
  have r_watch: "get_prop c7 ''watchIgnoredRegex'' =
        JArr (filter isRegExp
                (case get_prop u ''watchIgnoredRegex'' of
                   JArr regs \<Rightarrow> regs | JUndefined \<Rightarrow> [] | JNull \<Rightarrow> [] | v \<Rightarrow> [v]))"
    by (simp add: c7_def normalize_watchIgnoredRegex_value c6_watch)
  have r_app: "appends E \<Longrightarrow> \<exists>rest. d6 = d3 @ rest"
  proof -
    assume ap: "appends E"
    from delegate_validators_appends [OF ap, of "default_env c3" d3] s4
    obtain e1 where "d4 = d3 @ e1" by auto
    moreover from finish_validators_appends [OF ap, of c5 d4] s6
    obtain e2 where "d6 = d4 @ e2" by auto
    ultimately show ?thesis by simp
  qed
  have r_sil: "silent E \<Longrightarrow> d6 = d3"
    using delegate_validators_silent [of E "default_env c3" d3]
          finish_validators_silent [of E c5 d4] s4 s6 by simp
  show ?thesis
    using res r_devMode c1_devMode r_extras c2_extras r_hash r_watch r_app r_sil
    unfolding d3_eq by (intro exI [of _ c7] exI [of _ d6]) simp
qed

subsection \<open>The cache\<close>

lemma validateConfig_miss:
  assumes "CACHED_VALIDATED_CONFIG w \<noteq> Some u"
    and "validate_fresh E (store w ! u) b = Inr (c, ds)"
  shows "validateConfig E (Some u) b w =
           (w\<lparr>store := store w @ [c], CACHED_VALIDATED_CONFIG := Some (length (store w))\<rparr>,
            Inr (length (store w), ds))"
  using assms by (simp add: validateConfig_def)

lemma validateConfig_hit:
  assumes "CACHED_VALIDATED_CONFIG w = Some u"
  shows "validateConfig E (Some u) b w = (w, Inr (u, []))"
  using assms by (simp add: validateConfig_def)

lemma validateConfig_caches_result:
  assumes "validateConfig E uc b w = (w', Inr (r, ds))"
  shows "CACHED_VALIDATED_CONFIG w' = Some r"
  using assms
  by (auto simp: validateConfig_def split: option.splits if_splits sum.splits)

lemma plain_validators_respects_core: "respects_core plain_validators"
  by (simp add: respects_core_def core_fields_def keeps_def plain_validators_def)

lemma plain_validators_silent: "silent plain_validators"
  by (simp add: silent_def plain_validators_def)

lemma plain_validators_appends: "appends plain_validators"
  by (simp add: appends_def plain_validators_def)

lemma too_short_text:
  "too_short = \<lparr>level = ''error'',
      messageText = ''validatedConfig.hashedFileNameLength must be at least 4 characters''\<rparr>"
  by (simp add: too_short_def buildError_def MIN_HASHED_FILENAME_LENTH_def dec.simps)

lemma too_long_text:
  "too_long = \<lparr>level = ''error'',
      messageText = ''validatedConfig.hashedFileNameLength cannot be more than 32 characters''\<rparr>"
  by (simp add: too_long_def buildError_def MAX_HASHED_FILENAME_LENTH_def dec.simps)

lemma check_hashedFileNameLength_cases:
  "check_hashedFileNameLength [(''hashedFileNameLength'', v)] [] =
     (case v of
        JNum n \<Rightarrow> if num_lt n (Fin 4) then [too_short] else if num_lt (Fin 32) n then [too_long] else []
      | _ \<Rightarrow> [])"
proof (cases v)
  case (JNum n)
  have "\<not> (num_lt n (Fin 4) \<and> num_lt (Fin 32) n)" by (cases n) auto
  then show ?thesis using JNum
    by (auto simp: check_hashedFileNameLength_def MIN_HASHED_FILENAME_LENTH_def
          MAX_HASHED_FILENAME_LENTH_def)
qed (simp_all add: check_hashedFileNameLength_def)

text \<open>The first call on a raw configuration that yields one length error.\<close>

lemma first_call_short:
  "\<exists>c. validateConfig plain_validators (Some 0) [] (world_of [(''hashedFileNameLength'', JNum (Fin 3))])
     = (\<lparr>store = [[(''hashedFileNameLength'', JNum (Fin 3))], c], CACHED_VALIDATED_CONFIG = Some 1\<rparr>,
        Inr (1, [too_short]))"
proof -
  let ?u = "[(''hashedFileNameLength'', JNum (Fin 3))]"
  have ty: "typed_config ?u" by (simp add: typed_config_def)
  from validate_fresh_result [OF ty plain_validators_respects_core, of "[]"]
  obtain c ds where r: "validate_fresh plain_validators ?u [] = Inr (c, ds)"
    and d: "ds = check_hashedFileNameLength [(''hashedFileNameLength'', JNum (Fin 3))] []"
    using plain_validators_silent by auto
  have ds: "ds = [too_short]" unfolding d check_hashedFileNameLength_cases by simp
  have "validateConfig plain_validators (Some 0) [] (world_of ?u)
          = (\<lparr>store = [?u, c], CACHED_VALIDATED_CONFIG = Some 1\<rparr>, Inr (1, [too_short]))"
    using validateConfig_miss [of "world_of ?u" 0 plain_validators "[]" c ds] r ds
    by (simp add: world_of_def)
  then show ?thesis by blast
qed

text \<open>
  C1, as stated, fails.  The cache holds the object that validation returns, which is a
  new object and never the raw input.  With validators that check nothing, a first call
  on a raw configuration whose \<open>hashedFileNameLength\<close> is 3 returns object 1 with one
  error; a second call on the same reference 0 misses the cache, validates again and
  returns another new object, 2, again with the error, not object 1 with no diagnostics.
\<close>

theorem validateConfig_same_input_twice:
  "snd (validateConfig plain_validators (Some 0) []
          (world_of [(''hashedFileNameLength'', JNum (Fin 3))])) = Inr (1, [too_short]) \<and>
   snd (validateConfig plain_validators (Some 0) []
          (fst (validateConfig plain_validators (Some 0) []
                  (world_of [(''hashedFileNameLength'', JNum (Fin 3))])))) = Inr (2, [too_short]) \<and>
   snd (validateConfig plain_validators (Some 0) []
          (fst (validateConfig plain_validators (Some 0) []
                  (world_of [(''hashedFileNameLength'', JNum (Fin 3))])))) \<noteq> Inr (1, [])"
proof -
  let ?u = "[(''hashedFileNameLength'', JNum (Fin 3))]"
  from first_call_short obtain c where
    first: "validateConfig plain_validators (Some 0) [] (world_of ?u)
              = (\<lparr>store = [?u, c], CACHED_VALIDATED_CONFIG = Some 1\<rparr>, Inr (1, [too_short]))"
    by blast
  have ty: "typed_config ?u" by (simp add: typed_config_def)
  from validate_fresh_result [OF ty plain_validators_respects_core, of "[]"]
  obtain c' ds where r: "validate_fresh plain_validators ?u [] = Inr (c', ds)"
    and d: "ds = check_hashedFileNameLength [(''hashedFileNameLength'', JNum (Fin 3))] []"
    using plain_validators_silent by auto
  have ds: "ds = [too_short]" unfolding d check_hashedFileNameLength_cases by simp
  have second: "snd (validateConfig plain_validators (Some 0) []
                  \<lparr>store = [?u, c], CACHED_VALIDATED_CONFIG = Some 1\<rparr>) = Inr (2, [too_short])"
    using validateConfig_miss
            [of "\<lparr>store = [?u, c], CACHED_VALIDATED_CONFIG = Some 1\<rparr>" 0 plain_validators "[]" c' ds]
          r ds
    by simp
  show ?thesis using first second by simp
qed

text \<open>
  C1, amended.  Whenever the cached configuration is the same object as the input, the
  validator returns that object with empty diagnostics and leaves the store and the
  cache as they are, whatever the validators are (none of them runs).  In particular a
  call on the object that a preceding call returned, with any validators and bootstrap
  seed, returns that identical object with an empty diagnostics list and changes no
  field.
\<close>

theorem validateConfig_cached:
  "(CACHED_VALIDATED_CONFIG w = Some u \<longrightarrow> validateConfig E (Some u) b w = (w, Inr (u, []))) \<and>
   (validateConfig E uc b w = (w', Inr (r, ds)) \<longrightarrow>
      validateConfig E' (Some r) b' w' = (w', Inr (r, [])))"
  using validateConfig_hit validateConfig_caches_result by blast

theorem validateConfig_cached_witness:
  "validateConfig plain_validators (Some 1) []
     (fst (validateConfig plain_validators (Some 0) []
             (world_of [(''hashedFileNameLength'', JNum (Fin 3))])))
   = (fst (validateConfig plain_validators (Some 0) []
             (world_of [(''hashedFileNameLength'', JNum (Fin 3))])), Inr (1, []))"
proof -
  let ?u = "[(''hashedFileNameLength'', JNum (Fin 3))]"
  from first_call_short obtain c where
    first: "validateConfig plain_validators (Some 0) [] (world_of ?u)
              = (\<lparr>store = [?u, c], CACHED_VALIDATED_CONFIG = Some 1\<rparr>, Inr (1, [too_short]))"
    by blast
  show ?thesis
    using validateConfig_cached
            [of "world_of ?u" 0 plain_validators "[]" "Some 0"
                "\<lparr>store = [?u, c], CACHED_VALIDATED_CONFIG = Some 1\<rparr>" 1 "[too_short]"
                plain_validators "[]"]
          first
    by simp
qed

subsection \<open>The fields of a freshly validated configuration\<close>

lemma validateConfig_fresh_result:
  assumes miss: "CACHED_VALIDATED_CONFIG w \<noteq> Some u"
    and ty: "typed_config (store w ! u)"
    and rc: "respects_core E"
  shows "\<exists>w' c ds.
      validateConfig E (Some u) b w = (w', Inr (length (store w), ds)) \<and>
      store w' ! length (store w) = c \<and>
      validate_fresh E (store w ! u) b = Inr (c, ds)"
proof -
  from validate_fresh_result [OF ty rc, of b]
  obtain c ds where r: "validate_fresh E (store w ! u) b = Inr (c, ds)" by blast
  show ?thesis
    using validateConfig_miss [OF miss r] r by (simp add: nth_append)
qed

text \<open>
  C3.  On a cache miss with a well-typed configuration, and validators that keep to
  their contracts, full validation returns a new object whose \<open>hashedFileNameLength\<close>
  is the input value when that is a number, whatever its size (it is neither clamped nor
  rejected), and the default 8 otherwise.  The diagnostics start with what the length
  test reports: nothing for a value that is not a number, nothing for a number from 4 to
  32 (bounds included), exactly one error for a number below 4 and exactly one for a
  number above 32; whatever follows comes from the delegated validators, and is
  nothing when they are silent.
\<close>

theorem hashedFileNameLength_validation:
  assumes "u < length (store w)"
    and "CACHED_VALIDATED_CONFIG w \<noteq> Some u"
    and "typed_config (store w ! u)"
    and "respects_core E"
    and "appends E"
  shows "\<exists>w' ds rest.
      validateConfig E (Some u) b w = (w', Inr (length (store w), ds)) \<and>
      get_prop (store w' ! length (store w)) ''hashedFileNameLength'' =
        (case get_prop (store w ! u) ''hashedFileNameLength'' of
           JNum n \<Rightarrow> JNum n
         | _ \<Rightarrow> JNum (Fin 8)) \<and>
      ds = (case get_prop (store w ! u) ''hashedFileNameLength'' of
              JNum n \<Rightarrow> if num_lt n (Fin 4) then [too_short]
                        else if num_lt (Fin 32) n then [too_long] else []
            | _ \<Rightarrow> []) @ rest \<and>
      (silent E \<longrightarrow> rest = []) \<and>
      level too_short = ''error'' \<and> level too_long = ''error''"
proof -
  let ?v = "get_prop (store w ! u) ''hashedFileNameLength''"
  let ?hv = "if isNumber ?v then ?v else JNum (Fin 8)"
  from validateConfig_fresh_result [OF assms(2,3,4), of b]
  obtain w' c ds where call: "validateConfig E (Some u) b w = (w', Inr (length (store w), ds))"
    and obj: "store w' ! length (store w) = c"
    and fresh: "validate_fresh E (store w ! u) b = Inr (c, ds)"
    by blast
  from validate_fresh_result [OF assms(3,4), of b] fresh
  have hv: "get_prop c ''hashedFileNameLength'' = ?hv"
    and ap: "\<exists>rest. ds = check_hashedFileNameLength [(''hashedFileNameLength'', ?hv)] [] @ rest"
    and si: "silent E \<Longrightarrow> ds = check_hashedFileNameLength [(''hashedFileNameLength'', ?hv)] []"
    using assms(5) by auto
  have chk: "check_hashedFileNameLength [(''hashedFileNameLength'', ?hv)] [] =
             (case ?v of
                JNum n \<Rightarrow> if num_lt n (Fin 4) then [too_short]
                          else if num_lt (Fin 32) n then [too_long] else []
              | _ \<Rightarrow> [])"
    unfolding check_hashedFileNameLength_cases by (cases ?v) simp_all
  have val: "?hv = (case ?v of JNum n \<Rightarrow> JNum n | _ \<Rightarrow> JNum (Fin 8))"
    by (cases ?v) simp_all
  from ap obtain rest where rest: "ds = check_hashedFileNameLength [(''hashedFileNameLength'', ?hv)] [] @ rest"
    by blast
  have sil: "silent E \<longrightarrow> rest = []" using si rest by simp
  have ds_eq: "ds = (case ?v of
                JNum n \<Rightarrow> if num_lt n (Fin 4) then [too_short]
                          else if num_lt (Fin 32) n then [too_long] else []
              | _ \<Rightarrow> []) @ rest"
    using rest chk by simp
  have val_eq: "get_prop (store w' ! length (store w)) ''hashedFileNameLength'' =
                  (case ?v of JNum n \<Rightarrow> JNum n | _ \<Rightarrow> JNum (Fin 8))"
    using obj hv val by simp
  have lv: "level too_short = ''error'' \<and> level too_long = ''error''"
    by (simp add: too_short_text too_long_text)
  show ?thesis
    using call val_eq ds_eq sil lv by blast
qed

text \<open>
  C5.  On a cache miss with a well-typed configuration, full validation resolves
  \<open>devMode\<close> by precedence: \<open>false\<close> when the flag \<open>prod\<close> is set, else
  \<open>true\<close> when the flag \<open>dev\<close> is set, else the configuration's own \<open>devMode\<close>
  when that is a boolean, else \<open>false\<close>.  A flag is set when its value in the copy of
  \<open>flags\<close> made through JSON is truthy, as for the boolean \<open>true\<close>
  (\<open>flag_set_boolean\<close>); with no \<open>flags\<close> none is set (\<open>flag_set_absent\<close>).
\<close>

theorem devMode_precedence:
  assumes "u < length (store w)"
    and "CACHED_VALIDATED_CONFIG w \<noteq> Some u"
    and "typed_config (store w ! u)"
    and "respects_core E"
  shows "\<exists>w' ds.
      validateConfig E (Some u) b w = (w', Inr (length (store w), ds)) \<and>
      get_prop (store w' ! length (store w)) ''devMode'' =
        JBool (if flag_set (store w ! u) ''prod'' then False
               else if flag_set (store w ! u) ''dev'' then True
               else if isBoolean (get_prop (store w ! u) ''devMode'')
                    then get_prop (store w ! u) ''devMode'' = JBool True
               else False)"
proof -
  from validateConfig_fresh_result [OF assms(2,3,4), of b]
  obtain w' c ds where call: "validateConfig E (Some u) b w = (w', Inr (length (store w), ds))"
    and obj: "store w' ! length (store w) = c"
    and fresh: "validate_fresh E (store w ! u) b = Inr (c, ds)"
    by blast
  from validate_fresh_result [OF assms(3,4), of b] fresh
  have "get_prop c ''devMode'' =
        JBool (if flag_set (store w ! u) ''prod'' then False
               else if flag_set (store w ! u) ''dev'' then True
               else if isBoolean (get_prop (store w ! u) ''devMode'')
                    then get_prop (store w ! u) ''devMode'' = JBool True
               else False)"
    by auto
  then show ?thesis using call obj by auto
qed

text \<open>
  C7.  On a cache miss with a well-typed configuration, the validated
  \<open>watchIgnoredRegex\<close> is an array holding exactly the regular expressions of the
  input in their order: those of an array input (other entries are dropped), the input
  itself when it is a single regular expression, and none when the input is absent,
  \<open>null\<close> or any other value such as a string.
\<close>

theorem watchIgnoredRegex_normalized:
  assumes "u < length (store w)"
    and "CACHED_VALIDATED_CONFIG w \<noteq> Some u"
    and "typed_config (store w ! u)"
    and "respects_core E"
  shows "\<exists>w' ds.
      validateConfig E (Some u) b w = (w', Inr (length (store w), ds)) \<and>
      get_prop (store w' ! length (store w)) ''watchIgnoredRegex'' =
        JArr (filter isRegExp
                (case get_prop (store w ! u) ''watchIgnoredRegex'' of
                   JArr regs \<Rightarrow> regs
                 | JUndefined \<Rightarrow> []
                 | JNull \<Rightarrow> []
                 | v \<Rightarrow> [v]))"
proof -
  from validateConfig_fresh_result [OF assms(2,3,4), of b]
  obtain w' c ds where call: "validateConfig E (Some u) b w = (w', Inr (length (store w), ds))"
    and obj: "store w' ! length (store w) = c"
    and fresh: "validate_fresh E (store w ! u) b = Inr (c, ds)"
    by blast
  from validate_fresh_result [OF assms(3,4), of b] fresh
  have "get_prop c ''watchIgnoredRegex'' =
        JArr (filter isRegExp
                (case get_prop (store w ! u) ''watchIgnoredRegex'' of
                   JArr regs \<Rightarrow> regs | JUndefined \<Rightarrow> [] | JNull \<Rightarrow> [] | v \<Rightarrow> [v]))"
    by auto
  then show ?thesis using call obj by auto
qed

lemma json_roundtrip_props_boolean:
  "get_prop fs k = JBool v \<Longrightarrow> get_prop (json_roundtrip_props fs) k = JBool v"
  by (induction fs) (auto split: if_splits)

lemma flag_set_boolean:
  "get_prop c ''flags'' = JObj fs \<Longrightarrow> get_prop fs k = JBool v \<Longrightarrow> flag_set c k = v"
  by (simp add: flag_set_def js_or_def json_roundtrip_props_boolean)

lemma flag_set_absent:
  "get_prop c ''flags'' = JUndefined \<Longrightarrow> \<not> flag_set c k"
  by (simp add: flag_set_def js_or_def)

lemma naming_validators_respects_core: "respects_core naming_validators"
  by (simp add: respects_core_def core_fields_def keeps_def naming_validators_def
        plain_validators_def get_prop_set_prop)

lemma naming_validators_appends: "appends naming_validators"
  by (simp add: appends_def naming_validators_def plain_validators_def)

lemma validateConfig_omitted:
  "validate_fresh E [] b = Inr (c, ds) \<Longrightarrow>
   validateConfig E None b w =
     (w\<lparr>store := store w @ [c], CACHED_VALIDATED_CONFIG := Some (length (store w))\<rparr>,
      Inr (length (store w), ds))"
  by (simp add: validateConfig_def)

theorem hashedFileNameLength_validation_witness:
  "snd (validateConfig plain_validators (Some 0) []
          (world_of [(''hashedFileNameLength'', JNum (Fin 3))])) = Inr (1, [too_short]) \<and>
   get_prop (store (fst (validateConfig plain_validators (Some 0) []
          (world_of [(''hashedFileNameLength'', JNum (Fin 3))]))) ! 1) ''hashedFileNameLength''
     = JNum (Fin 3) \<and>
   snd (validateConfig plain_validators (Some 0) []
          (world_of [(''hashedFileNameLength'', JNum (Fin 33))])) = Inr (1, [too_long]) \<and>
   get_prop (store (fst (validateConfig plain_validators (Some 0) []
          (world_of [(''hashedFileNameLength'', JNum (Fin 33))]))) ! 1) ''hashedFileNameLength''
     = JNum (Fin 33) \<and>
   snd (validateConfig plain_validators (Some 0) []
          (world_of [(''hashedFileNameLength'', JNum (Fin 4))])) = Inr (1, []) \<and>
   snd (validateConfig plain_validators (Some 0) []
          (world_of [(''hashedFileNameLength'', JNum (Fin 32))])) = Inr (1, []) \<and>
   snd (validateConfig plain_validators (Some 0) []
          (world_of [(''hashedFileNameLength'', JStr ''16'')])) = Inr (1, []) \<and>
   get_prop (store (fst (validateConfig plain_validators (Some 0) []
          (world_of [(''hashedFileNameLength'', JStr ''16'')]))) ! 1) ''hashedFileNameLength''
     = JNum (Fin 8) \<and>
   (\<exists>rest. snd (validateConfig naming_validators (Some 0) []
                   (world_of [(''hashedFileNameLength'', JNum (Fin 3))])) = Inr (1, too_short # rest))"
proof -
  have inst: "\<exists>w'. validateConfig plain_validators (Some 0) [] (world_of [(''hashedFileNameLength'', v)])
                = (w', Inr (1, case v of
                                 JNum n \<Rightarrow> if num_lt n (Fin 4) then [too_short]
                                           else if num_lt (Fin 32) n then [too_long] else []
                               | _ \<Rightarrow> [])) \<and>
              get_prop (store w' ! 1) ''hashedFileNameLength'' =
                (case v of JNum n \<Rightarrow> JNum n | _ \<Rightarrow> JNum (Fin 8))" for v
    using hashedFileNameLength_validation
            [of 0 "world_of [(''hashedFileNameLength'', v)]" plain_validators "[]"]
          plain_validators_respects_core plain_validators_appends plain_validators_silent
    by (auto simp: world_of_def typed_config_def)
  have naming: "\<exists>rest. snd (validateConfig naming_validators (Some 0) []
                   (world_of [(''hashedFileNameLength'', JNum (Fin 3))])) = Inr (1, too_short # rest)"
    using hashedFileNameLength_validation
            [of 0 "world_of [(''hashedFileNameLength'', JNum (Fin 3))]" naming_validators "[]"]
          naming_validators_respects_core naming_validators_appends
    by (auto simp: world_of_def typed_config_def)
  show ?thesis
    using inst [of "JNum (Fin 3)"] inst [of "JNum (Fin 33)"] inst [of "JNum (Fin 4)"]
          inst [of "JNum (Fin 32)"] inst [of "JStr ''16''"] naming
    by auto
qed

theorem devMode_precedence_witness:
  "get_prop (store (fst (validateConfig plain_validators (Some 0) []
          (world_of [(''flags'', JObj [(''prod'', JBool True)]), (''devMode'', JBool True)]))) ! 1)
      ''devMode'' = JBool False \<and>
   get_prop (store (fst (validateConfig plain_validators (Some 0) []
          (world_of [(''flags'', JObj [(''dev'', JBool True)]), (''devMode'', JBool False)]))) ! 1)
      ''devMode'' = JBool True \<and>
   get_prop (store (fst (validateConfig plain_validators (Some 0) []
          (world_of [(''devMode'', JBool True)]))) ! 1)
      ''devMode'' = JBool True \<and>
   get_prop (store (fst (validateConfig plain_validators (Some 0) [] (world_of []))) ! 1)
      ''devMode'' = JBool False"
proof -
  have inst: "typed_config c \<Longrightarrow>
              get_prop (store (fst (validateConfig plain_validators (Some 0) [] (world_of c))) ! 1)
                ''devMode'' =
              JBool (if flag_set c ''prod'' then False
                     else if flag_set c ''dev'' then True
                     else if isBoolean (get_prop c ''devMode'') then get_prop c ''devMode'' = JBool True
                     else False)" for c
    using devMode_precedence [of 0 "world_of c" plain_validators "[]"]
          plain_validators_respects_core
    by (auto simp: world_of_def)
  have t1: "typed_config [(''flags'', JObj [(''prod'', JBool True)]), (''devMode'', JBool True)]"
    and t2: "typed_config [(''flags'', JObj [(''dev'', JBool True)]), (''devMode'', JBool False)]"
    and t3: "typed_config [(''devMode'', JBool True)]"
    and t4: "typed_config []"
    by (simp_all add: typed_config_def)
  show ?thesis
    using inst [OF t1] inst [OF t2] inst [OF t3] inst [OF t4]
    by (simp add: flag_set_def js_or_def)
qed

theorem watchIgnoredRegex_normalized_witness:
  "get_prop (store (fst (validateConfig plain_validators (Some 0) []
          (world_of [(''watchIgnoredRegex'', JRegExp ''node_modules'')]))) ! 1)
      ''watchIgnoredRegex'' = JArr [JRegExp ''node_modules''] \<and>
   get_prop (store (fst (validateConfig plain_validators (Some 0) []
          (world_of [(''watchIgnoredRegex'',
                      JArr [JRegExp ''a'', JStr ''b'', JNum (Fin 1), JRegExp ''c''])]))) ! 1)
      ''watchIgnoredRegex'' = JArr [JRegExp ''a'', JRegExp ''c''] \<and>
   get_prop (store (fst (validateConfig plain_validators (Some 0) []
          (world_of [(''watchIgnoredRegex'', JStr ''node_modules'')]))) ! 1)
      ''watchIgnoredRegex'' = JArr [] \<and>
   get_prop (store (fst (validateConfig plain_validators (Some 0) [] (world_of []))) ! 1)
      ''watchIgnoredRegex'' = JArr []"
proof -
  have inst: "typed_config c \<Longrightarrow>
              get_prop (store (fst (validateConfig plain_validators (Some 0) [] (world_of c))) ! 1)
                ''watchIgnoredRegex'' =
              JArr (filter isRegExp
                      (case get_prop c ''watchIgnoredRegex'' of
                         JArr regs \<Rightarrow> regs | JUndefined \<Rightarrow> [] | JNull \<Rightarrow> [] | v \<Rightarrow> [v]))" for c
    using watchIgnoredRegex_normalized [of 0 "world_of c" plain_validators "[]"]
          plain_validators_respects_core
    by (auto simp: world_of_def)
  have t1: "typed_config [(''watchIgnoredRegex'', JRegExp ''node_modules'')]"
    and t2: "typed_config [(''watchIgnoredRegex'',
                      JArr [JRegExp ''a'', JStr ''b'', JNum (Fin 1), JRegExp ''c''])]"
    and t3: "typed_config [(''watchIgnoredRegex'', JStr ''node_modules'')]"
    and t4: "typed_config []"
    by (simp_all add: typed_config_def)
  show ?thesis
    using inst [OF t1] inst [OF t2] inst [OF t3] inst [OF t4] by simp
qed

subsection \<open>The extras flags\<close>

lemma normalize_extras_object_empty:
  "normalize_extras_object [] =
     [(''appendChildSlotFix'', JBool False), (''cloneNodeFix'', JBool False),
      (''lifecycleDOMEvents'', JBool False), (''scriptDataOpts'', JBool False),
      (''slotChildNodesFix'', JBool False), (''initializeNextTick'', JBool False),
      (''tagNameTransform'', JBool False), (''experimentalSlotFixes'', JBool False)]"
  by (simp add: normalize_extras_object_def coerce_flag_def)

text \<open>
  What the extras stage does: eight flags are coerced to booleans, the composite flag
  then forces four fixes on, and every other property is left as it is.  The fourth
  forced fix, \<open>scopedSlotTextContentFix\<close>, is not among the coerced flags.
\<close>

lemma normalize_extras_object_flags:
  "get_prop (normalize_extras_object e) ''experimentalSlotFixes'' =
     JBool (truthy (get_prop e ''experimentalSlotFixes'')) \<and>
   get_prop (normalize_extras_object e) ''appendChildSlotFix'' =
     JBool (truthy (get_prop e ''experimentalSlotFixes'') \<or> truthy (get_prop e ''appendChildSlotFix'')) \<and>
   get_prop (normalize_extras_object e) ''cloneNodeFix'' =
     JBool (truthy (get_prop e ''experimentalSlotFixes'') \<or> truthy (get_prop e ''cloneNodeFix'')) \<and>
   get_prop (normalize_extras_object e) ''slotChildNodesFix'' =
     JBool (truthy (get_prop e ''experimentalSlotFixes'') \<or> truthy (get_prop e ''slotChildNodesFix'')) \<and>
   get_prop (normalize_extras_object e) ''lifecycleDOMEvents'' =
     JBool (truthy (get_prop e ''lifecycleDOMEvents'')) \<and>
   get_prop (normalize_extras_object e) ''scriptDataOpts'' =
     JBool (truthy (get_prop e ''scriptDataOpts'')) \<and>
   get_prop (normalize_extras_object e) ''initializeNextTick'' =
     JBool (truthy (get_prop e ''initializeNextTick'')) \<and>
   get_prop (normalize_extras_object e) ''tagNameTransform'' =
     JBool (truthy (get_prop e ''tagNameTransform'')) \<and>
   get_prop (normalize_extras_object e) ''scopedSlotTextContentFix'' =
     (if truthy (get_prop e ''experimentalSlotFixes'') then JBool True
      else get_prop e ''scopedSlotTextContentFix'')"
  by (simp add: normalize_extras_object_def coerce_flag_def get_prop_set_prop Let_def)

lemma normalize_extras_object_other:
  assumes "k \<notin> {''appendChildSlotFix'', ''cloneNodeFix'', ''lifecycleDOMEvents'', ''scriptDataOpts'',
                 ''slotChildNodesFix'', ''initializeNextTick'', ''tagNameTransform'',
                 ''experimentalSlotFixes'', ''scopedSlotTextContentFix''}"
  shows "get_prop (normalize_extras_object e) k = get_prop e k"
  using assms by (simp add: normalize_extras_object_def coerce_flag_def get_prop_set_prop Let_def)

text \<open>
  C4.  Every sub-flag of \<open>extras\<close> should hold a boolean after full validation, absent
  flags becoming \<open>false\<close>.  On a configuration with an empty \<open>extras\<close> the validated
  \<open>extras\<close> holds eight flags, all \<open>false\<close>, and no \<open>scopedSlotTextContentFix\<close>:
  that flag reads \<open>undefined\<close>, while its sibling \<open>slotChildNodesFix\<close> reads
  \<open>false\<close>; a non-boolean value given for it is kept as it is.
\<close>

theorem extras_scopedSlotTextContentFix_not_coerced:
  "get_prop (store (fst (validateConfig plain_validators (Some 0) []
          (world_of [(''extras'', JObj [])]))) ! 1) ''extras''
     = JObj [(''appendChildSlotFix'', JBool False), (''cloneNodeFix'', JBool False),
             (''lifecycleDOMEvents'', JBool False), (''scriptDataOpts'', JBool False),
             (''slotChildNodesFix'', JBool False), (''initializeNextTick'', JBool False),
             (''tagNameTransform'', JBool False), (''experimentalSlotFixes'', JBool False)] \<and>
   get_prop (normalize_extras_object []) ''slotChildNodesFix'' = JBool False \<and>
   get_prop (normalize_extras_object []) ''scopedSlotTextContentFix'' = JUndefined \<and>
   get_prop (normalize_extras_object [(''scopedSlotTextContentFix'', JStr ''yes'')])
     ''scopedSlotTextContentFix'' = JStr ''yes''"
proof -
  let ?u = "[(''extras'', JObj [])]"
  have ty: "typed_config ?u" by (simp add: typed_config_def)
  have miss: "CACHED_VALIDATED_CONFIG (world_of ?u) \<noteq> Some 0" by (simp add: world_of_def)
  from validateConfig_fresh_result [of "world_of ?u" 0 plain_validators "[]"]
       plain_validators_respects_core ty
  obtain w' c ds where call: "validateConfig plain_validators (Some 0) [] (world_of ?u) = (w', Inr (1, ds))"
    and obj: "store w' ! 1 = c"
    and fresh: "validate_fresh plain_validators ?u [] = Inr (c, ds)"
    by (auto simp: world_of_def)
  from validate_fresh_result [OF ty plain_validators_respects_core, of "[]"] fresh
  have "get_prop c ''extras'' = JObj (normalize_extras_object [])" by auto
  then have "get_prop (store (fst (validateConfig plain_validators (Some 0) [] (world_of ?u))) ! 1)
               ''extras'' = JObj (normalize_extras_object [])"
    using call obj by simp
  then show ?thesis
    by (simp add: normalize_extras_object_empty) (simp add: normalize_extras_object_def coerce_flag_def)
qed


end
